theory Spec2Isabelle
  imports Main "HOL-Library.Char_ord" "HOL-Library.List_Lexorder" "HOL-Library.Sublist"
begin

section \<open>Go strings\<close>

text \<open>
  A Go \<open>string\<close> is a sequence of bytes, here a \<^typ>\<open>string\<close> (a list of 8-bit
  characters).  The functions of package \<open>strings\<close> that the launcher calls are written
  out on that representation.
\<close>

text \<open>\<open>strings.Join(elems, sep)\<close>.\<close>

fun strings_Join :: "string list \<Rightarrow> string \<Rightarrow> string" where
  "strings_Join [] sep = []"
| "strings_Join [x] sep = x"
| "strings_Join (x # y # ys) sep = x @ sep @ strings_Join (y # ys) sep"

text \<open>
  \<open>strings.ReplaceAll(s, old, new)\<close>: the non-overlapping occurrences of \<open>old\<close> are
  replaced from the left.  For an empty \<open>old\<close> Go inserts \<open>new\<close> at every position
  (before each UTF-8 sequence, which is each byte on ASCII text, and at the end).
\<close>

function strings_ReplaceAll :: "string \<Rightarrow> string \<Rightarrow> string \<Rightarrow> string" where
  "strings_ReplaceAll s old new =
     (if old = [] then new @ concat (map (\<lambda>c. c # new) s)
      else if s = [] then []
      else if take (length old) s = old
        then new @ strings_ReplaceAll (drop (length old) s) old new
      else hd s # strings_ReplaceAll (tl s) old new)"
  by pat_completeness auto
termination
  by (relation "measure (\<lambda>(s, old, new). length s)") auto

declare strings_ReplaceAll.simps [simp del]

text \<open>
  \<open>strings.ToLower(s)\<close>.  Go lowers an all-ASCII string byte by byte; a string with a
  byte outside ASCII goes through \<open>strings.Map(unicode.ToLower, s)\<close>, whose case tables
  belong to the Go runtime: that mapping is the parameter \<open>uni\<close>.
\<close>

definition isASCII :: "string \<Rightarrow> bool" where
  "isASCII s = list_all (\<lambda>c. (of_char c :: nat) < 128) s"

definition isUpper :: "char \<Rightarrow> bool" where
  "isUpper c = ((of_char (CHR ''A'') :: nat) \<le> of_char c \<and> (of_char c :: nat) \<le> of_char (CHR ''Z''))"

definition ascii_lower :: "char \<Rightarrow> char" where
  "ascii_lower c = (if isUpper c then char_of ((of_char c :: nat) + 32) else c)"

definition strings_ToLower :: "(string \<Rightarrow> string) \<Rightarrow> string \<Rightarrow> string" where
  "strings_ToLower uni s = (if isASCII s then map ascii_lower s else uni s)"

section \<open>Base64\<close>

text \<open>
  \<open>base64.StdEncoding.EncodeToString\<close>: the standard alphabet of RFC 4648 with
  \<open>=\<close> padding.  Three bytes give four characters; Go computes the four 6-bit groups
  of the 24-bit value \<open>a<<16 | b<<8 | c\<close>, written here on the bytes themselves.
\<close>

definition encodeStd :: string where
  "encodeStd = ''ABCDEFGHIJKLMNOPQRSTUVWXYZabcdefghijklmnopqrstuvwxyz0123456789+/''"

definition enc :: "nat \<Rightarrow> char" where
  "enc i = encodeStd ! (i mod 64)"

fun EncodeToString :: "string \<Rightarrow> string" where
  "EncodeToString (a # b # c # rest) =
     (let x = (of_char a :: nat); y = (of_char b :: nat); z = (of_char c :: nat)
      in enc (x div 4) # enc ((x mod 4) * 16 + y div 16) # enc ((y mod 16) * 4 + z div 64)
           # enc (z mod 64) # EncodeToString rest)"
| "EncodeToString [a, b] =
     (let x = (of_char a :: nat); y = (of_char b :: nat)
      in [enc (x div 4), enc ((x mod 4) * 16 + y div 16), enc ((y mod 16) * 4), CHR ''=''])"
| "EncodeToString [a] =
     (let x = (of_char a :: nat)
      in [enc (x div 4), enc ((x mod 4) * 16), CHR ''='', CHR ''=''])"
| "EncodeToString [] = []"

text \<open>
  The decoder that the generated \<open>base64 -d\<close> command stands for: the inverse reading of
  the same alphabet, four characters at a time, \<open>None\<close> on malformed input.  It is used
  to state what a payload decodes to.
\<close>

definition dec :: "char \<Rightarrow> nat option" where
  "dec c = map_of (zip encodeStd [0..<64]) c"

fun base64_d :: "string \<Rightarrow> string option" where
  "base64_d [] = Some []"
| "base64_d (c1 # c2 # c3 # c4 # rest) =
     (case (dec c1, dec c2) of
        (Some x1, Some x2) \<Rightarrow>
          (if c3 = CHR ''='' \<and> c4 = CHR ''='' \<and> rest = []
           then Some [char_of (x1 * 4 + x2 div 16)]
           else (case dec c3 of
              Some x3 \<Rightarrow>
                (if c4 = CHR ''='' \<and> rest = []
                 then Some [char_of (x1 * 4 + x2 div 16), char_of (x2 * 16 + x3 div 4)]
                 else (case (dec c4, base64_d rest) of
                    (Some x4, Some bs) \<Rightarrow>
                      Some (char_of (x1 * 4 + x2 div 16) # char_of (x2 * 16 + x3 div 4)
                             # char_of (x3 * 64 + x4) # bs)
                  | _ \<Rightarrow> None))
            | None \<Rightarrow> None))
      | _ \<Rightarrow> None)"
| "base64_d _ = None"

section \<open>The descriptor\<close>

text \<open>
  \<open>DevContainer\<close> of package \<open>devcontainer\<close>.  The anonymous struct \<open>Build\<close> is
  flattened into three fields.  A Go map is a reference: \<open>Settings\<close> holds either
  \<open>nil\<close> (\<open>None\<close>) or the address of a map object in the store (see below), so that a
  copy of the struct shares the map with the original, as in Go.
\<close>

record PortAttribute =
  Label :: string
  OnAutoForward :: string

type_synonym ref = nat

record DevContainer =
  DirPath :: string
  Name :: string
  Build_Dockerfile :: string
  Build_Context :: string
  Build_Args :: "(string \<times> string) list"
  RunArgs :: "string list"
  WorkspaceMount :: string
  WorkspaceFolder :: string
  Settings :: "ref option"
  Extensions :: "string list"
  ForwardPorts :: "string list"
  PortsAttributes :: "(string \<times> PortAttribute) list"
  PostCreateCommand :: string
  RemoteUser :: string

section \<open>Image tag\<close>

text \<open>\<open>getImageTag\<close>; \<open>fmt.Sprintf("%s_code_coder_server", name)\<close> appends the suffix.\<close>

definition getImageTag :: "(string \<Rightarrow> string) \<Rightarrow> DevContainer \<Rightarrow> string" where
  "getImageTag uni devcontainer =
     (let name = strings_ToLower uni (Name devcontainer);
          name = strings_ReplaceAll name '' '' ''_''
      in name @ ''_code_coder_server'')"

section \<open>JSON values and their encoding\<close>

text \<open>Go's \<open>error\<close> values.\<close>

datatype error = Error string

text \<open>
  The values that reach \<open>dumpAsJson\<close>: what \<open>json5.Unmarshal\<close> stores in an
  \<open>interface{}\<close> (\<open>nil\<close>, \<open>bool\<close>, \<open>float64\<close>, \<open>string\<close>, \<open>[]interface{}\<close>,
  \<open>map[string]interface{}\<close>), and structs such as \<open>KeyBinding\<close>.  A map is an association
  list read through \<^const>\<open>map_of\<close>; a struct lists its fields in declaration order.
  The type \<open>'n\<close> stands for \<open>float64\<close>.
\<close>

datatype 'n json =
    JNull
  | JBool bool
  | JNumber 'n
  | JString string
  | JArray "'n json list"
  | JMap "(string \<times> 'n json) list"
  | JStruct "(string \<times> 'n json) list"

record KeyBinding =
  Key :: string
  Command :: string
  When :: string

text \<open>
  What the program takes from packages outside the repository and what depends on the Go
  runtime is a parameter:
  \<^item> \<open>formatFloat\<close>: the text \<open>encoding/json\<close> writes for a \<open>float64\<close>, \<open>None\<close> for the
    values it rejects (NaN and the infinities);
  \<^item> \<open>quoteString\<close>: the quoted and escaped text it writes for a string
    (with \<open>SetEscapeHTML(false)\<close>);
  \<^item> \<open>unmarshalMap\<close>: \<open>json5.Unmarshal\<close> into a \<open>map[string]interface{}\<close> (a \<open>null\<close>
    document leaves the map \<open>nil\<close>, which has no entries);
  \<^item> \<open>unmarshalKeyBindings\<close>: \<open>json5.Unmarshal\<close> into a \<open>[]KeyBinding\<close>
    (\<open>None\<close> is the \<open>nil\<close> slice of a \<open>null\<close> document).
\<close>

record 'n library =
  formatFloat :: "'n \<Rightarrow> string option"
  quoteString :: "string \<Rightarrow> string"
  unmarshalMap :: "string \<Rightarrow> error + (string \<times> 'n json) list"
  unmarshalKeyBindings :: "string \<Rightarrow> error + KeyBinding list option"

text \<open>The line break of \<open>json.Indent(dst, src, "", "  ")\<close> at a nesting depth.\<close>

definition newline :: "nat \<Rightarrow> string" where
  "newline depth = CHR 0x0A # concat (replicate depth ''  '')"

fun sequenceOpt :: "'a option list \<Rightarrow> 'a list option" where
  "sequenceOpt [] = Some []"
| "sequenceOpt (None # xs) = None"
| "sequenceOpt (Some x # xs) = (case sequenceOpt xs of None \<Rightarrow> None | Some ys \<Rightarrow> Some (x # ys))"

definition objectMember :: "'n library \<Rightarrow> string \<times> string option \<Rightarrow> string option" where
  "objectMember L kv = (case snd kv of None \<Rightarrow> None | Some t \<Rightarrow> Some (quoteString L (fst kv) @ '': '' @ t))"

definition bracket :: "string \<Rightarrow> string \<Rightarrow> nat \<Rightarrow> string option list \<Rightarrow> string option" where
  "bracket l r depth items =
     (case sequenceOpt items of
        None \<Rightarrow> None
      | Some ts \<Rightarrow>
          if ts = [] then Some (l @ r)
          else Some (l @ newline (Suc depth) @ strings_Join ts ('','' @ newline (Suc depth))
                       @ newline depth @ r))"

text \<open>
  \<open>encoder.Encode(obj)\<close> followed by \<open>json.Indent\<close>, as one function on the value: the
  text of the value indented by two spaces per level, \<open>None\<close> when the encoder rejects
  the value.  Map keys come out sorted and once each, struct fields in their order, the
  empty array and object as \<open>[]\<close> and \<open>{}\<close>.
\<close>

fun indented :: "'n library \<Rightarrow> nat \<Rightarrow> 'n json \<Rightarrow> string option" where
  "indented L depth JNull = Some ''null''"
| "indented L depth (JBool b) = Some (if b then ''true'' else ''false'')"
| "indented L depth (JNumber x) = formatFloat L x"
| "indented L depth (JString s) = Some (quoteString L s)"
| "indented L depth (JArray vs) =
     bracket ''['' '']'' depth (map (indented L (Suc depth)) vs)"
| "indented L depth (JStruct fs) =
     bracket ''{'' ''}'' depth
       (map (objectMember L) (map (\<lambda>kv. (fst kv, indented L (Suc depth) (snd kv))) fs))"
| "indented L depth (JMap kvs) =
     (let texts = map (\<lambda>kv. (fst kv, indented L (Suc depth) (snd kv))) kvs;
          keys = sort (remdups (map fst kvs))
      in bracket ''{'' ''}'' depth
           (map (\<lambda>k. objectMember L (k, case map_of texts k of None \<Rightarrow> None | Some t \<Rightarrow> t)) keys))"

text \<open>
  \<open>dumpAsJson\<close>.  \<open>Encode\<close> writes the compact text and a line feed into \<open>data\<close>, or
  nothing when it fails (the source drops that error); \<open>json.Indent\<close> fails on the empty
  buffer and otherwise keeps the trailing line feed.
\<close>

definition dumpAsJson :: "'n library \<Rightarrow> 'n json \<Rightarrow> error + string" where
  "dumpAsJson L obj =
     (case indented L 0 obj of
        None \<Rightarrow> Inl (Error ''unexpected end of JSON input'')
      | Some out \<Rightarrow> Inr (out @ [CHR 0x0A]))"

text \<open>A \<open>[]KeyBinding\<close> as a value to encode; the struct tags name the fields.\<close>

definition keyBindingsValue :: "KeyBinding list option \<Rightarrow> 'n json" where
  "keyBindingsValue obj =
     (case obj of
        None \<Rightarrow> JNull
      | Some kbs \<Rightarrow>
          JArray (map (\<lambda>kb. JStruct [(''key'', JString (Key kb)),
                                       (''command'', JString (Command kb)),
                                       (''when'', JString (When kb))]) kbs))"

section \<open>The store of map objects\<close>

text \<open>
  Go maps live on the heap and are shared by reference.  The store is the list of the map
  objects allocated so far; a reference is an index into it.  \<open>make\<close> appends a new
  object.
\<close>

type_synonym 'n store = "(string \<times> 'n json) list list"

definition load :: "'n store \<Rightarrow> ref \<Rightarrow> (string \<times> 'n json) list" where
  "load h a = (if a < length h then h ! a else [])"

definition alloc :: "'n store \<Rightarrow> ref \<times> 'n store" where
  "alloc h = (length h, h @ [[]])"

text \<open>
  Modelled from the spec: \<open>mergo.Merge(dst, src)\<close> of package
  \<open>github.com/imdario/mergo\<close>, which is not among the repository's sources.  The spec's
  merge is first-write-wins: on a key collision the value already in \<open>dst\<close> stays, and the
  entries of \<open>src\<close> under keys that \<open>dst\<close> lacks are added.  The function gives the new
  contents of the map object \<open>dst\<close> points to; the caller writes them back in place.
\<close>

definition mergo_Merge ::
  "(string \<times> 'n json) list \<Rightarrow> (string \<times> 'n json) list \<Rightarrow> (string \<times> 'n json) list" where
  "mergo_Merge dst src = dst @ filter (\<lambda>kv. map_of dst (fst kv) = None) src"

section \<open>Dockerfile synthesis\<close>

text \<open>A \<open>settings.Repository\<close>: its method \<open>Get(ctx, filename)\<close>.\<close>

type_synonym Repository = "string \<Rightarrow> error + string"

definition CodeServerInstall :: string where
  \<open>CodeServerInstall = ''RUN curl -fsSL https://code-server.dev/install.sh | sh''\<close>

definition Entrypoint :: string where
  \<open>Entrypoint = ''ENTRYPOINT ["/opt/code-server/entrypoint.sh"]''\<close>

definition createEntryScriptCommands :: "DevContainer \<Rightarrow> error + string list" where
  "createEntryScriptCommands devcontainer =
     (let scriptCommands = [''#!/bin/bash'', ''set -e'', ''set -x'', PostCreateCommand devcontainer];
          scriptCommands = scriptCommands @
            [''code-server --user-data-dir /opt/code-server/.vscode --config /opt/code-server/config.yml --bind-addr 0.0.0.0:8080'']
      in Inr scriptCommands)"

definition createEntryScript :: "DevContainer \<Rightarrow> error + string" where
  "createEntryScript devcontainer =
     (case createEntryScriptCommands devcontainer of
        Inl err \<Rightarrow> Inl err
      | Inr entryScriptCommands \<Rightarrow>
          (let entryScriptContents = strings_Join entryScriptCommands [CHR 0x0A];
               b64EntryScriptContents = EncodeToString entryScriptContents;
               dockerfileCommands =
                 [''RUN mkdir -p /opt/code-server'',
                  ''RUN echo '' @ [CHR 0x27] @ b64EntryScriptContents @ [CHR 0x27]
                     @ '' | base64 -d > /opt/code-server/entrypoint.sh'',
                  ''RUN chmod +x /opt/code-server/entrypoint.sh'']
           in Inr (strings_Join dockerfileCommands [CHR 0x0A])))"

text \<open>
  \<open>createSettingJson\<close>.  \<open>settings := devcontainer.Settings\<close> copies the reference, so
  \<open>mergo.Merge(&settings, obj)\<close> writes into the descriptor's own map object unless that
  was \<open>nil\<close>, in which case a new object is made.  The function returns its result and
  the store it leaves.
\<close>

definition createSettingJson ::
  "'n library \<Rightarrow> 'n store \<Rightarrow> DevContainer \<Rightarrow> Repository \<Rightarrow> (error + string) \<times> 'n store" where
  "createSettingJson L h devcontainer repository =
     (let (settings, h) = (case Settings devcontainer of None \<Rightarrow> alloc h | Some a \<Rightarrow> (a, h));
          h = (case repository ''settings.json'' of
                 Inl err \<Rightarrow> h
               | Inr contentsFromSync \<Rightarrow>
                   (case unmarshalMap L contentsFromSync of
                      Inl err \<Rightarrow> h
                    | Inr obj \<Rightarrow> h[settings := mergo_Merge (load h settings) obj]))
      in case dumpAsJson L (JMap (load h settings)) of
           Inl err \<Rightarrow> (Inl err, h)
         | Inr settingsJsonContents \<Rightarrow>
             (let b64SettingsJsonContents = EncodeToString settingsJsonContents;
                  dockerfileCommands =
                    [''RUN mkdir -p /opt/code-server/.vscode/User'',
                     ''RUN echo '' @ [CHR 0x27] @ b64SettingsJsonContents @ [CHR 0x27]
                        @ '' | base64 -d > /opt/code-server/.vscode/User/settings.json'']
              in (Inr (strings_Join dockerfileCommands [CHR 0x0A]), h)))"

text \<open>
  \<open>createKeybindingsJson\<close>: the loop over the array of file names, \<open>continue\<close> being the
  recursive call on the remaining names.
\<close>

definition keybindingsJsonFilenames :: "string list" where
  "keybindingsJsonFilenames = [''keybindings.json'', ''keybindingsMac.json'']"

fun keybindingsLoop :: "'n library \<Rightarrow> Repository \<Rightarrow> string list \<Rightarrow> error + string" where
  "keybindingsLoop L repository [] = Inr []"
| "keybindingsLoop L repository (filename # filenames) =
     (case repository filename of
        Inl err \<Rightarrow> keybindingsLoop L repository filenames
      | Inr contentsFromSync \<Rightarrow>
          if length contentsFromSync = 0 then keybindingsLoop L repository filenames
          else (case unmarshalKeyBindings L contentsFromSync of
             Inl err \<Rightarrow> keybindingsLoop L repository filenames
           | Inr obj \<Rightarrow>
               (case dumpAsJson L (keyBindingsValue obj) of
                  Inl err \<Rightarrow> keybindingsLoop L repository filenames
                | Inr keybindingsJsonContents \<Rightarrow>
                    (let b64KeybindingsJsonContents = EncodeToString keybindingsJsonContents;
                         dockerfileCommands =
                           [''RUN mkdir -p /opt/code-server/.vscode/User'',
                            ''RUN echo '' @ [CHR 0x27] @ b64KeybindingsJsonContents @ [CHR 0x27]
                               @ '' | base64 -d > /opt/code-server/.vscode/User/keybindings.json'']
                     in Inr (strings_Join dockerfileCommands [CHR 0x0A])))))"

definition createKeybindingsJson :: "'n library \<Rightarrow> DevContainer \<Rightarrow> Repository \<Rightarrow> error + string" where
  "createKeybindingsJson L devcontainer repository =
     keybindingsLoop L repository keybindingsJsonFilenames"

definition modifyCodeServerDirPermissions :: "DevContainer \<Rightarrow> error + string" where
  "modifyCodeServerDirPermissions devcontainer = Inr ''RUN chmod -R o+wr /opt/code-server/''"

text \<open>\<open>installExtensions\<close>; \<open>fmt.Sprintf\<close> puts the identifier in place of \<open>%s\<close>.\<close>

definition installExtensions :: "DevContainer \<Rightarrow> error + string" where
  "installExtensions devcontainer =
     (let commands = map (\<lambda>v. ''RUN code-server --install-extension '' @ v
                               @ '' --extensions-dir /opt/code-server/.vscode/extensions/'')
                         (Extensions devcontainer)
      in Inr (strings_Join commands [CHR 0x0A]))"

definition createConfigYaml :: "DevContainer \<Rightarrow> error + string" where
  \<open>createConfigYaml container = Inr ''RUN echo "auth: none" > /opt/code-server/config.yml''\<close>

section \<open>File paths\<close>

text \<open>
  Package \<open>path/filepath\<close> on a system whose separator is \<open>/\<close> and that has no volume
  names.  \<open>Clean\<close> drops empty elements and \<open>.\<close>, resolves \<open>..\<close> against the element
  before it (a rooted path cannot go above the root, a relative one keeps leading
  \<open>..\<close>), and gives \<open>.\<close> for the empty result.
\<close>

fun splitSlash :: "string \<Rightarrow> string list" where
  "splitSlash [] = [[]]"
| "splitSlash (c # cs) =
     (if c = CHR ''/'' then [] # splitSlash cs
      else (case splitSlash cs of [] \<Rightarrow> [[c]] | e # es \<Rightarrow> (c # e) # es))"

definition cleanStep :: "bool \<Rightarrow> string list \<Rightarrow> string \<Rightarrow> string list" where
  "cleanStep rooted out e =
     (if e = ''..'' then
        (if out \<noteq> [] \<and> last out \<noteq> ''..'' then butlast out
         else if rooted then out
         else out @ [''..''])
      else out @ [e])"

definition filepath_Clean :: "string \<Rightarrow> string" where
  "filepath_Clean path =
     (if path = [] then ''.''
      else
        (let rooted = (hd path = CHR ''/'');
             elems = filter (\<lambda>e. e \<noteq> [] \<and> e \<noteq> ''.'') (splitSlash path);
             out = foldl (cleanStep rooted) [] elems
         in if rooted then ''/'' @ strings_Join out ''/''
            else if out = [] then ''.''
            else strings_Join out ''/''))"

text \<open>\<open>filepath.Join\<close>: leading empty elements are skipped, the rest joined and cleaned.\<close>

definition filepath_Join :: "string list \<Rightarrow> string" where
  "filepath_Join elem =
     (case dropWhile (\<lambda>e. e = []) elem of
        [] \<Rightarrow> []
      | e # es \<Rightarrow> filepath_Clean (strings_Join (e # es) ''/''))"

text \<open>\<open>filepath.Dir\<close>: everything up to the last separator, cleaned.\<close>

definition filepath_Dir :: "string \<Rightarrow> string" where
  "filepath_Dir path = filepath_Clean (rev (dropWhile (\<lambda>c. c \<noteq> CHR ''/'') (rev path)))"

text \<open>\<open>filepath.Base\<close>: the last element, after trailing separators are stripped.\<close>

definition filepath_Base :: "string \<Rightarrow> string" where
  "filepath_Base path =
     (if path = [] then ''.''
      else
        (let path = rev (dropWhile (\<lambda>c. c = CHR ''/'') (rev path));
             path = rev (takeWhile (\<lambda>c. c \<noteq> CHR ''/'') (rev path))
         in if path = [] then ''/'' else path))"

section \<open>The derived Dockerfile\<close>

text \<open>
  \<open>WrapDockerFile\<close>.  \<open>ReadFile\<close> is \<open>ioutil.ReadFile\<close> on the file system at hand.
  \<open>log.Print\<close> writes to the log only and is left out.
\<close>

definition WrapDockerFile ::
  "'n library \<Rightarrow> (string \<Rightarrow> error + string) \<Rightarrow> 'n store \<Rightarrow> DevContainer \<Rightarrow> Repository
     \<Rightarrow> (error + string) \<times> 'n store" where
  "WrapDockerFile L ReadFile h devcontainer repository =
     (let dockerfilePath = filepath_Join [DirPath devcontainer, Build_Dockerfile devcontainer]
      in case ReadFile dockerfilePath of
           Inl err \<Rightarrow> (Inl err, h)
         | Inr dockerfile \<Rightarrow>
             (case createEntryScript devcontainer of
                Inl err \<Rightarrow> (Inl err, h)
              | Inr entryScriptCreation \<Rightarrow>
                  (let extensionsInstallation =
                         (case installExtensions devcontainer of Inl err \<Rightarrow> [] | Inr s \<Rightarrow> s);
                       codeServerDirPermissionModification =
                         (case modifyCodeServerDirPermissions devcontainer of Inl err \<Rightarrow> [] | Inr s \<Rightarrow> s);
                       configYamlCreation =
                         (case createConfigYaml devcontainer of Inl err \<Rightarrow> [] | Inr s \<Rightarrow> s);
                       (r, h) = createSettingJson L h devcontainer repository;
                       settingJsonCreation = (case r of Inl err \<Rightarrow> [] | Inr s \<Rightarrow> s);
                       keybindingsJsonCreation =
                         (case createKeybindingsJson L devcontainer repository of
                            Inl err \<Rightarrow> [] | Inr s \<Rightarrow> s);
                       dockerfileContent = dockerfile;
                       dockerfileContent = strings_Join
                         [dockerfileContent,
                          CodeServerInstall,
                          settingJsonCreation,
                          keybindingsJsonCreation,
                          entryScriptCreation,
                          extensionsInstallation,
                          configYamlCreation,
                          codeServerDirPermissionModification,
                          Entrypoint] [CHR 0x0A]
                   in (Inr dockerfileContent, h))))"

section \<open>Workspace paths\<close>

text \<open>
  Modelled from the spec: \<open>interpolate.Interpolate(env, template)\<close> of package
  \<open>github.com/buildkite/interpolate\<close>, which is not among the repository's sources.  The
  spec's interpolation replaces each placeholder \<open>${name}\<close> by the value of the variable
  and fails when the template references an undefined variable.  The template is first cut
  into its placeholders and the characters between them, then expanded from left to right.
  A placeholder that is never closed is taken as malformed and fails too; all other text
  is copied.
\<close>

datatype segment = Text char | Placeholder string

function parseTemplate :: "string \<Rightarrow> segment list option" where
  "parseTemplate [] = Some []"
| "parseTemplate (c # cs) =
     (if c = CHR ''$'' \<and> cs \<noteq> [] \<and> hd cs = CHR ''{'' then
        (let name = takeWhile (\<lambda>x. x \<noteq> CHR ''}'') (tl cs);
             rest = dropWhile (\<lambda>x. x \<noteq> CHR ''}'') (tl cs)
         in if rest = [] then None
            else map_option (\<lambda>segs. Placeholder name # segs) (parseTemplate (tl rest)))
      else map_option (\<lambda>segs. Text c # segs) (parseTemplate cs))"
  by pat_completeness auto
termination
proof (relation "measure length")
  fix c :: char and cs name rest :: string
  assume "rest = dropWhile (\<lambda>x. x \<noteq> CHR ''}'') (tl cs)"
  moreover have "length (dropWhile (\<lambda>x. x \<noteq> CHR ''}'') (tl cs)) \<le> length (tl cs)"
    by (rule length_dropWhile_le)
  ultimately show "(tl rest, c # cs) \<in> measure length"
    by simp
qed simp_all

fun expand :: "(string \<times> string) list \<Rightarrow> segment list \<Rightarrow> error + string" where
  "expand env [] = Inr []"
| "expand env (Text c # segs) =
     (case expand env segs of Inl err \<Rightarrow> Inl err | Inr out \<Rightarrow> Inr (c # out))"
| "expand env (Placeholder name # segs) =
     (case map_of env name of
        None \<Rightarrow> Inl (Error (''undefined variable '' @ name))
      | Some v \<Rightarrow> (case expand env segs of Inl err \<Rightarrow> Inl err | Inr out \<Rightarrow> Inr (v @ out)))"

definition interpolate_Interpolate :: "(string \<times> string) list \<Rightarrow> string \<Rightarrow> error + string" where
  "interpolate_Interpolate env template =
     (case parseTemplate template of
        None \<Rightarrow> Inl (Error ''placeholder is not closed'')
      | Some segs \<Rightarrow> expand env segs)"

definition getMapEnv :: "DevContainer \<Rightarrow> (string \<times> string) list" where
  "getMapEnv devcontainer =
     (let localWorkspaceFolder = filepath_Dir (DirPath devcontainer);
          localWorkspaceFolderBasename = filepath_Base localWorkspaceFolder
      in [(''localWorkspaceFolder'', localWorkspaceFolder),
          (''localWorkspaceFolderBasename'', localWorkspaceFolderBasename)])"

definition getWorkspaceBinding :: "DevContainer \<Rightarrow> error + string" where
  "getWorkspaceBinding devcontainer =
     (let workspaceMount = WorkspaceMount devcontainer;
          workspaceMount =
            (if workspaceMount = [] then
               ''source=${localWorkspaceFolder},target=/workspace/${localWorkspaceFolderBasename},type=bind''
             else workspaceMount);
          mapEnv = getMapEnv devcontainer
      in interpolate_Interpolate mapEnv workspaceMount)"

definition getWorkspaceFolder :: "DevContainer \<Rightarrow> error + string" where
  "getWorkspaceFolder devcontainer =
     (let workspaceFolder = WorkspaceFolder devcontainer;
          workspaceFolder =
            (if workspaceFolder = [] then ''/workspace/${localWorkspaceFolderBasename}''
             else workspaceFolder);
          mapEnv = getMapEnv devcontainer
      in interpolate_Interpolate mapEnv workspaceFolder)"

section \<open>The container\<close>

text \<open>
  \<open>ServiceURL\<close>; its field \<open>WorkspaceFolder\<close> is named \<open>WorkspaceFolderURL\<close> here, apart
  from the descriptor's field of the same name.
\<close>

record ServiceURL =
  Host :: string
  Port :: int
  WorkspaceFolderURL :: string

text \<open>
  An \<open>exec.Cmd\<close> made by \<open>exec.Command(name, args...)\<close>: the program and its arguments.
\<close>

record Cmd =
  Path :: string
  Args :: "string list"

record ContainerContext =
  cmd :: Cmd
  name :: string

text \<open>The verb \<open>%d\<close> of \<open>fmt.Sprintf\<close>: an integer in decimal.\<close>

definition digits :: string where
  "digits = ''0123456789''"

function decimal :: "nat \<Rightarrow> string" where
  "decimal n = (if n < 10 then [digits ! n] else decimal (n div 10) @ [digits ! (n mod 10)])"
  by pat_completeness auto
termination
  by (relation "measure (\<lambda>n. n)") auto

declare decimal.simps [simp del]

definition fmt_d :: "int \<Rightarrow> string" where
  "fmt_d i = (if i < 0 then CHR ''-'' # decimal (nat (- i)) else decimal (nat i))"

text \<open>
  \<open>makeRandomString\<close>.  \<open>rnd i\<close> is the result of the \<open>i\<close>-th call of
  \<open>rand.Intn(len(letters))\<close>, a number below 52.
\<close>

definition letters :: string where
  "letters = ''abcdefghijklmnopqrstuvwxyzABCDEFGHIJKLMNOPQRSTUVWXYZ''"

definition makeRandomString :: "(nat \<Rightarrow> nat) \<Rightarrow> string" where
  "makeRandomString rnd = map (\<lambda>i. letters ! (rnd i mod length letters)) [0..<16]"

definition NewContainerContext ::
  "(nat \<Rightarrow> nat) \<Rightarrow> string \<Rightarrow> DevContainer \<Rightarrow> ServiceURL \<Rightarrow> error + ContainerContext" where
  "NewContainerContext rnd tag devcontainer serviceURL =
     (let name = makeRandomString rnd;
          portBinding = ''0.0.0.0:'' @ fmt_d (Port serviceURL) @ '':8080'';
          args = [''run'', ''--rm'', ''-p'', portBinding, ''--name'', name]
      in case getWorkspaceBinding devcontainer of
           Inl err \<Rightarrow> Inl err
         | Inr workspaceBinding \<Rightarrow>
             (let args = args @ [''--mount'', workspaceBinding];
                  args = args @ [''-w'', WorkspaceFolderURL serviceURL];
                  args = foldl (\<lambda>args v. args @ [v]) args (RunArgs devcontainer);
                  args = foldl (\<lambda>args v. args @ [''-p'', v]) args (ForwardPorts devcontainer);
                  args = (if RemoteUser devcontainer \<noteq> [] then args @ [''-u'', RemoteUser devcontainer]
                          else args);
                  args = args @ [tag]
              in Inr \<lparr>cmd = \<lparr>Path = ''docker'', Args = args\<rparr>, name = name\<rparr>))"

section \<open>Running the container\<close>

text \<open>
  What happens around one call of \<open>Run\<close>: whether \<open>cmd.Start\<close> fails, the events that
  reach the launcher afterwards in the order they happen (signals sent to it, and the
  termination of the process it started), and the result of the \<open>docker kill\<close> command.
  Signals outside the three passed to \<open>signal.Notify\<close> are not put on the channel.
\<close>

datatype signal = SIGHUP | SIGINT | SIGTERM | SIGCHLD | SIGWINCH

datatype event = Signal signal | Exited

record world =
  startError :: "error option"
  events :: "event list"
  killError :: "error option"

text \<open>
  \<open>waitForSignal\<close>: the receive \<open>\<open><-\<close>s\<close> returns at the first notified signal; with no
  such signal it never returns (\<open>None\<close>).
\<close>

definition notified :: "signal \<Rightarrow> bool" where
  "notified s = (s = SIGHUP \<or> s = SIGINT \<or> s = SIGTERM)"

fun waitForSignal :: "event list \<Rightarrow> unit option" where
  "waitForSignal [] = None"
| "waitForSignal (Signal s # es) = (if notified s then Some () else waitForSignal es)"
| "waitForSignal (Exited # es) = waitForSignal es"

text \<open>\<open>stop\<close>: the command it runs and the error of \<open>cmd.Run()\<close>.\<close>

definition stop :: "world \<Rightarrow> ContainerContext \<Rightarrow> Cmd \<times> error option" where
  "stop w c = (\<lparr>Path = ''docker'', Args = [''kill'', name c]\<rparr>, killError w)"

text \<open>
  \<open>Run\<close>.  The result lists the commands handed to the operating system and says what
  \<open>Run\<close> returned: \<open>None\<close> if it never returns, \<open>Some None\<close> for \<open>nil\<close>, \<open>Some (Some e)\<close>
  for an error.  The deferred \<open>c.cmd.Wait()\<close> runs after the result of \<open>c.stop()\<close> is
  fixed and returns once the started process has terminated, whenever that happens.
\<close>

record outcome =
  commands :: "Cmd list"
  returned :: "error option option"

definition Run :: "world \<Rightarrow> ContainerContext \<Rightarrow> outcome" where
  "Run w c =
     (case startError w of
        Some err \<Rightarrow> \<lparr>commands = [cmd c], returned = Some (Some err)\<rparr>
      | None \<Rightarrow>
          (case waitForSignal (events w) of
             None \<Rightarrow> \<lparr>commands = [cmd c], returned = None\<rparr>
           | Some _ \<Rightarrow>
               (let (kill, err) = stop w c
                in if Exited \<in> set (events w)
                   then \<lparr>commands = [cmd c, kill], returned = Some err\<rparr>
                   else \<lparr>commands = [cmd c, kill], returned = None\<rparr>)))"

section \<open>The descriptors of the repository's tests\<close>

text \<open>
  The descriptor that \<open>TestDevcontainer\<close> parses, placed in a project directory, with its
  \<open>settings\<close> map at address 0 of the store \<open>goStore\<close>; and the descriptor that
  \<open>TestDockerfile\<close> builds by hand, whose Dockerfile is a temporary file.
\<close>

definition goDescriptor :: DevContainer where
  "goDescriptor =
     \<lparr>DirPath = ''/home/dev/project/.devcontainer'',
      Name = ''Go'',
      Build_Dockerfile = ''Dockerfile'',
      Build_Context = [],
      Build_Args = [(''VARIANT'', ''1-bullseye''), (''NODE_VERSION'', ''lts/*'')],
      RunArgs = [''--cap-add=SYS_PTRACE'', ''--security-opt'', ''seccomp=unconfined''],
      WorkspaceMount = [],
      WorkspaceFolder = [],
      Settings = Some 0,
      Extensions = [''golang.Go''],
      ForwardPorts = [],
      PortsAttributes = [(''8000'', \<lparr>Label = ''Web'', OnAutoForward = ''openBrowser''\<rparr>)],
      PostCreateCommand = ''go version'',
      RemoteUser = ''vscode''\<rparr>"

definition goStore :: "'n store" where
  "goStore = [[(''go.useLanguageServer'', JBool True),
               (''go.gopath'', JString ''/go''),
               (''go.goroot'', JString ''/usr/local/go'')]]"

definition testDescriptor :: DevContainer where
  "testDescriptor =
     \<lparr>DirPath = [],
      Name = ''test'',
      Build_Dockerfile = ''/tmp/Dockerfile123456789'',
      Build_Context = ''.'',
      Build_Args = [],
      RunArgs = [],
      WorkspaceMount = [],
      WorkspaceFolder = [],
      Settings = None,
      Extensions = [],
      ForwardPorts = [],
      PortsAttributes = [],
      PostCreateCommand = [],
      RemoteUser = []\<rparr>"


text \<open>
  \<open>MemoryRepository\<close> of the test file: \<open>Get\<close> looks the file name up in \<open>data\<close>.
\<close>

definition MemoryRepository_Get :: "(string \<times> string) list \<Rightarrow> Repository" where
  "MemoryRepository_Get data filename =
     (case map_of data filename of
        Some v \<Rightarrow> Inr v
      | None \<Rightarrow> Inl (Error (''Filename '' @ filename @ '' not found'')))"

text \<open>
  A file system that holds one file; and what \<open>TestDockerfile\<close> expects to get back
  (\<open>expectDockerfileContents\<close>), line by line.
\<close>

definition oneFile :: "string \<Rightarrow> string \<Rightarrow> string \<Rightarrow> error + string" where
  "oneFile path contents p =
     (if p = path then Inr contents else Inl (Error (''open '' @ p @ '': no such file or directory'')))"

definition expectDockerfileContents :: string where
  \<open>expectDockerfileContents = strings_Join
     [''FROM golang:1.12.5'',
      ''RUN curl -fsSL https://code-server.dev/install.sh | sh'',
      ''RUN mkdir -p /opt/code-server/.vscode/User'',
      ''RUN echo 'e30K' | base64 -d > /opt/code-server/.vscode/User/settings.json'',
      '''',
      ''RUN mkdir -p /opt/code-server'',
      ''RUN echo 'IyEvYmluL2Jhc2gKc2V0IC1lCnNldCAteAoKY29kZS1zZXJ2ZXIgLS11c2VyLWRhdGEtZGlyIC9vcHQvY29kZS1zZXJ2ZXIvLnZzY29kZSAtLWNvbmZpZyAvb3B0L2NvZGUtc2VydmVyL2NvbmZpZy55bWwgLS1iaW5kLWFkZHIgMC4wLjAuMDo4MDgw' | base64 -d > /opt/code-server/entrypoint.sh'',
      ''RUN chmod +x /opt/code-server/entrypoint.sh'',
      '''',
      ''RUN echo "auth: none" > /opt/code-server/config.yml'',
      ''RUN chmod -R o+wr /opt/code-server/'',
      ''ENTRYPOINT ["/opt/code-server/entrypoint.sh"]''] [CHR 0x0A]\<close>


section \<open>The blocks of the derived Dockerfile\<close>

text \<open>
  The pieces of the derived Dockerfile as the specification describes them, for stating
  what \<open>WrapDockerFile\<close> produces: the two lines that write a base64 payload to the settings
  file or to the keybindings file, the three lines that write the entrypoint script and
  make it executable, the script itself, and the line that installs one extension.
\<close>

definition settingsInjection :: "string \<Rightarrow> string" where
  "settingsInjection payload =
     ''RUN mkdir -p /opt/code-server/.vscode/User'' @ [CHR 0x0A]
     @ ''RUN echo '' @ [CHR 0x27] @ payload @ [CHR 0x27]
     @ '' | base64 -d > /opt/code-server/.vscode/User/settings.json''"

definition keybindingsInjection :: "string \<Rightarrow> string" where
  "keybindingsInjection payload =
     ''RUN mkdir -p /opt/code-server/.vscode/User'' @ [CHR 0x0A]
     @ ''RUN echo '' @ [CHR 0x27] @ payload @ [CHR 0x27]
     @ '' | base64 -d > /opt/code-server/.vscode/User/keybindings.json''"

definition entrypointInjection :: "string \<Rightarrow> string" where
  "entrypointInjection payload =
     ''RUN mkdir -p /opt/code-server'' @ [CHR 0x0A]
     @ ''RUN echo '' @ [CHR 0x27] @ payload @ [CHR 0x27]
     @ '' | base64 -d > /opt/code-server/entrypoint.sh'' @ [CHR 0x0A]
     @ ''RUN chmod +x /opt/code-server/entrypoint.sh''"

definition entryScript :: "DevContainer \<Rightarrow> string" where
  "entryScript d =
     ''#!/bin/bash'' @ [CHR 0x0A] @ ''set -e'' @ [CHR 0x0A] @ ''set -x'' @ [CHR 0x0A]
     @ PostCreateCommand d @ [CHR 0x0A]
     @ ''code-server --user-data-dir /opt/code-server/.vscode --config /opt/code-server/config.yml --bind-addr 0.0.0.0:8080''"

definition extensionLine :: "string \<Rightarrow> string" where
  "extensionLine v =
     ''RUN code-server --install-extension '' @ v
     @ '' --extensions-dir /opt/code-server/.vscode/extensions/''"

text \<open>
  The descriptor's \<open>settings\<close> object as the store holds it (no entries for \<open>nil\<close>), and
  what one candidate file of the repository contributes as keybindings block: nothing
  (\<open>None\<close>) when the fetch fails, the content is empty, it does not parse, or it cannot be
  encoded.
\<close>

definition descriptorSettings :: "'n store \<Rightarrow> DevContainer \<Rightarrow> (string \<times> 'n json) list" where
  "descriptorSettings h d = (case Settings d of None \<Rightarrow> [] | Some a \<Rightarrow> load h a)"

definition keybindingsCandidate :: "'n library \<Rightarrow> Repository \<Rightarrow> string \<Rightarrow> string option" where
  "keybindingsCandidate L repository filename =
     (case repository filename of
        Inl err \<Rightarrow> None
      | Inr contents \<Rightarrow>
          if contents = [] then None
          else (case unmarshalKeyBindings L contents of
             Inl err \<Rightarrow> None
           | Inr obj \<Rightarrow>
               (case dumpAsJson L (keyBindingsValue obj) of
                  Inl err \<Rightarrow> None
                | Inr text \<Rightarrow> Some (keybindingsInjection (EncodeToString text)))))"

text \<open>
  An instance of the library parameters for the examples: integers for the numbers, printed
  in decimal; strings without characters that need escaping, put between double quotes;
  and a parser that knows the documents used in the examples.
\<close>

definition remoteSettingsJson :: string where
  \<open>remoteSettingsJson = ''{"editor.tabSize": 2, "go.gopath": "/home/me/go"}''\<close>

definition remoteKeybindingsJson :: string where
  \<open>remoteKeybindingsJson =
     ''[{"key": "ctrl+b", "command": "workbench.action.tasks.build", "when": "editorFocus"}]''\<close>

definition exampleDocuments :: "(string \<times> (string \<times> int json) list) list" where
  "exampleDocuments =
     [(remoteSettingsJson,
         [(''editor.tabSize'', JNumber 2), (''go.gopath'', JString ''/home/me/go'')]),
      (''{}'', [])]"

definition exampleKeybindings :: "(string \<times> KeyBinding list option) list" where
  "exampleKeybindings =
     [(remoteKeybindingsJson,
         Some [\<lparr>Key = ''ctrl+b'', Command = ''workbench.action.tasks.build'', When = ''editorFocus''\<rparr>]),
      (''[]'', Some []),
      (''null'', None)]"

definition exampleLibrary :: "int library" where
  "exampleLibrary =
     \<lparr>formatFloat = (\<lambda>x. Some (fmt_d x)),
      quoteString = (\<lambda>s. [CHR 0x22] @ s @ [CHR 0x22]),
      unmarshalMap = (\<lambda>s. case map_of exampleDocuments s of
                              Some obj \<Rightarrow> Inr obj
                            | None \<Rightarrow> Inl (Error ''invalid character'')),
      unmarshalKeyBindings = (\<lambda>s. case map_of exampleKeybindings s of
                              Some obj \<Rightarrow> Inr obj
                            | None \<Rightarrow> Inl (Error ''invalid character''))\<rparr>"

text \<open>
  The object the settings block is to hold according to the specification: the
  descriptor's settings merged with the settings fetched under \<open>settings.json\<close>, or the
  descriptor's settings alone when the fetch or the parse fails.  A descriptor is valid in
  a store when its \<open>Settings\<close> reference, if any, points to an allocated object.
\<close>

definition settingsToWrite ::
  "'n library \<Rightarrow> 'n store \<Rightarrow> DevContainer \<Rightarrow> Repository \<Rightarrow> (string \<times> 'n json) list" where
  "settingsToWrite L h d repository =
     (case repository ''settings.json'' of
        Inl err \<Rightarrow> descriptorSettings h d
      | Inr contents \<Rightarrow>
          (case unmarshalMap L contents of
             Inl err \<Rightarrow> descriptorSettings h d
           | Inr remote \<Rightarrow> mergo_Merge (descriptorSettings h d) remote))"

definition validDescriptor :: "'n store \<Rightarrow> DevContainer \<Rightarrow> bool" where
  "validDescriptor h d = (case Settings d of None \<Rightarrow> True | Some a \<Rightarrow> a < length h)"


section \<open>Placeholders left in a text\<close>

text \<open>
  For stating that a resolved path has no placeholder left: whether a text contains the
  two characters \<open>${\<close> next to each other, and whether in a parsed template a literal \<open>$\<close>
  is directly followed by a literal \<open>{\<close>.
\<close>

fun hasDollarBrace :: "string \<Rightarrow> bool" where
  "hasDollarBrace [] = False"
| "hasDollarBrace [c] = False"
| "hasDollarBrace (c # c' # cs) = ((c = CHR ''$'' \<and> c' = CHR ''{'') \<or> hasDollarBrace (c' # cs))"

fun dollarThenBrace :: "segment list \<Rightarrow> bool" where
  "dollarThenBrace (Text c # Text c' # segs) =
     ((c = CHR ''$'' \<and> c' = CHR ''{'') \<or> dollarThenBrace (Text c' # segs))"
| "dollarThenBrace (s # s' # segs) = dollarThenBrace (s' # segs)"
| "dollarThenBrace _ = False"

text \<open>The template that workspace-folder resolution interpolates.\<close>

definition workspaceFolderTemplate :: "DevContainer \<Rightarrow> string" where
  "workspaceFolderTemplate d =
     (if WorkspaceFolder d = [] then ''/workspace/${localWorkspaceFolderBasename}''
      else WorkspaceFolder d)"

section \<open>Base64 round trip\<close>

lemma length_encodeStd: "length encodeStd = 64"
  by (simp add: encodeStd_def)

lemma distinct_encodeStd: "distinct encodeStd"
  by (simp add: encodeStd_def)

lemma dec_enc: "dec (enc i) = Some (i mod 64)"
proof -
  have "map_of (zip encodeStd [0..<64]) (encodeStd ! (i mod 64)) = Some ([0..<64] ! (i mod 64))"
    by (rule map_of_zip_nth) (simp_all add: length_encodeStd distinct_encodeStd)
  then show ?thesis by (simp add: dec_def enc_def)
qed

lemma enc_not_pad: "enc i \<noteq> CHR ''=''"
proof -
  have "CHR ''='' \<notin> set encodeStd" by (simp add: encodeStd_def)
  moreover have "enc i \<in> set encodeStd"
    unfolding enc_def by (rule nth_mem) (simp add: length_encodeStd)
  ultimately show ?thesis by metis
qed

lemma sextet_hi: "x < 256 \<Longrightarrow> (x div 4) mod 64 = (x::nat) div 4"
  by simp

lemma sextet_mid1: "y < 256 \<Longrightarrow> ((x mod 4) * 16 + y div 16) mod 64 = ((x::nat) mod 4) * 16 + y div 16"
  by simp

lemma sextet_mid2: "z < 256 \<Longrightarrow> ((y mod 16) * 4 + z div 64) mod 64 = ((y::nat) mod 16) * 4 + z div 64"
  by simp

lemma octet1: "y < 256 \<Longrightarrow> (x div 4) * 4 + ((x mod 4) * 16 + y div 16) div 16 = (x::nat)"
  by simp

lemma octet2:
  "z < 256 \<Longrightarrow>
   (((x mod 4) * 16 + y div 16) * 16 + ((y mod 16) * 4 + z div 64) div 4) mod 256 = (y::nat) mod 256"
  by (simp add: mod_mult2_eq)

lemma octet3: "(((y mod 16) * 4 + z div 64) * 64 + z mod 64) mod 256 = (z::nat) mod 256"
  by (simp add: mod_mult2_eq)

lemma char_of_octet:
  fixes n m :: nat
  assumes "n mod 256 = m mod 256"
  shows "(char_of n :: char) = char_of m"
proof -
  have "(char_of n :: char) = char_of (n mod 256)" by simp
  also have "\<dots> = char_of (m mod 256)" using assms by simp
  also have "\<dots> = char_of m" by simp
  finally show ?thesis .
qed

lemma base64_d_EncodeToString: "base64_d (EncodeToString s) = Some s"
proof (induction s rule: EncodeToString.induct)
  case (1 a b c rest)
  have a: "(of_char a :: nat) < 256" and b: "(of_char b :: nat) < 256" and c: "(of_char c :: nat) < 256"
    by simp_all
  have e1: "char_of ((of_char a :: nat) div 4 * 4 + (of_char a mod 4 * 16 + of_char b div 16) div 16) = a"
    using octet1 [OF b, of "of_char a"] by simp
  have e2: "char_of (((of_char a :: nat) mod 4 * 16 + of_char b div 16) * 16 + ((of_char b mod 16) * 4 + of_char c div 64) div 4) = b"
    using char_of_octet [OF octet2 [OF c, of "of_char a" "of_char b"]] by simp
  have e3: "char_of ((((of_char b :: nat) mod 16) * 4 + of_char c div 64) * 64 + of_char c mod 64) = c"
    using char_of_octet [OF octet3 [of "of_char b" "of_char c"]] by simp
  show ?case
    using 1 e1 e2 e3
    by (simp add: Let_def dec_enc enc_not_pad sextet_hi sextet_mid1 sextet_mid2 del: of_char_mod_256 char_of_mod_256)
next
  case (2 a b)
  have b: "(of_char b :: nat) < 256" by simp
  have e1: "char_of ((of_char a :: nat) div 4 * 4 + (of_char a mod 4 * 16 + of_char b div 16) div 16) = a"
    using octet1 [OF b, of "of_char a"] by simp
  have "(((of_char a :: nat) mod 4 * 16 + of_char b div 16) * 16 + ((of_char b mod 16) * 4) div 4) mod 256
          = (of_char b :: nat) mod 256"
    using octet2 [of 0 "of_char a" "of_char b"] by simp
  from char_of_octet [OF this]
  have e2: "char_of (((of_char a :: nat) mod 4 * 16 + of_char b div 16) * 16 + ((of_char b mod 16) * 4) div 4) = b"
    by simp
  have m: "((of_char b :: nat) mod 16 * 4) mod 64 = of_char b mod 16 * 4"
    using sextet_mid2 [of 0 "of_char b"] by simp
  show ?case
    using e1 e2
    by (simp add: Let_def dec_enc enc_not_pad sextet_hi sextet_mid1 m del: of_char_mod_256 char_of_mod_256)
next
  case (3 a)
  have e1: "char_of ((of_char a :: nat) div 4 * 4 + (of_char a mod 4 * 16) div 16) = a"
    using octet1 [of 0 "of_char a"] by simp
  have m: "((of_char a :: nat) mod 4 * 16) mod 64 = of_char a mod 4 * 16"
    using sextet_mid1 [of 0 "of_char a"] by simp
  show ?case
    using e1
    by (simp add: Let_def dec_enc enc_not_pad sextet_hi m del: of_char_mod_256 char_of_mod_256)
next
  case 4
  then show ?case by simp
qed

section \<open>Properties of the image tag\<close>

lemma strings_ReplaceAll_space:
  "strings_ReplaceAll s '' '' ''_'' = map (\<lambda>c. if c = CHR '' '' then CHR ''_'' else c) s"
proof (induction s)
  case Nil
  show ?case by (simp add: strings_ReplaceAll.simps)
next
  case (Cons c cs)
  show ?case
  proof (cases "c = CHR '' ''")
    case True
    then show ?thesis
      using Cons.IH by (subst strings_ReplaceAll.simps) simp
  next
    case False
    then show ?thesis
      using Cons.IH by (subst strings_ReplaceAll.simps) simp
  qed
qed

lemma ascii_lower_not_upper:
  "(of_char c :: nat) < 128 \<Longrightarrow> \<not> isUpper (ascii_lower c)"
  by (auto simp: ascii_lower_def isUpper_def)

lemma suffix_not_upper: "\<forall>c \<in> set ''_code_coder_server''. \<not> isUpper c"
  by (simp add: isUpper_def)

text \<open>
  Claim C10.  The image tag is a function of the descriptor's name alone, so deriving it
  twice from the same name gives the same string.  It is the lowercased name, with every
  space replaced by an underscore, followed by the suffix \<open>_code_coder_server\<close>; it
  contains no space and it ends in \<open>_code_coder_server\<close>.  For a name in ASCII the tag has
  no upper-case letter.
\<close>

theorem getImageTag_spec:
  "getImageTag uni d =
     map (\<lambda>c. if c = CHR '' '' then CHR ''_'' else c) (strings_ToLower uni (Name d))
       @ ''_code_coder_server''
   \<and> (\<forall>d'. Name d' = Name d \<longrightarrow> getImageTag uni d' = getImageTag uni d)
   \<and> CHR '' '' \<notin> set (getImageTag uni d)
   \<and> suffix ''_code_coder_server'' (getImageTag uni d)
   \<and> (isASCII (Name d) \<longrightarrow> (\<forall>c \<in> set (getImageTag uni d). \<not> isUpper c))"
proof (intro conjI allI impI ballI)
  show "getImageTag uni d =
     map (\<lambda>c. if c = CHR '' '' then CHR ''_'' else c) (strings_ToLower uni (Name d))
       @ ''_code_coder_server''"
    by (simp add: getImageTag_def Let_def strings_ReplaceAll_space)
next
  fix d' :: DevContainer
  assume "Name d' = Name d"
  then show "getImageTag uni d' = getImageTag uni d"
    by (simp add: getImageTag_def)
next
  show "CHR '' '' \<notin> set (getImageTag uni d)"
    by (auto simp: getImageTag_def Let_def strings_ReplaceAll_space)
next
  show "suffix ''_code_coder_server'' (getImageTag uni d)"
    by (simp add: getImageTag_def Let_def suffix_def)
next
  fix c
  assume a: "isASCII (Name d)" and c: "c \<in> set (getImageTag uni d)"
  from a have low: "strings_ToLower uni (Name d) = map ascii_lower (Name d)"
    by (simp add: strings_ToLower_def)
  have "getImageTag uni d =
          map (\<lambda>c. if c = CHR '' '' then CHR ''_'' else c) (map ascii_lower (Name d))
            @ ''_code_coder_server''"
    unfolding getImageTag_def Let_def strings_ReplaceAll_space low ..
  with c have "c \<in> set (map (\<lambda>c. if c = CHR '' '' then CHR ''_'' else c) (map ascii_lower (Name d)))
               \<or> c \<in> set ''_code_coder_server''"
    by (simp only: set_append Un_iff)
  then show "\<not> isUpper c"
  proof
    assume "c \<in> set (map (\<lambda>c. if c = CHR '' '' then CHR ''_'' else c) (map ascii_lower (Name d)))"
    then obtain x where x: "x \<in> set (Name d)"
      and e: "c = (if ascii_lower x = CHR '' '' then CHR ''_'' else ascii_lower x)"
      by (auto simp: image_iff)
    from a x have "(of_char x :: nat) < 128"
      by (simp add: isASCII_def list_all_iff)
    then have "\<not> isUpper (ascii_lower x)" by (rule ascii_lower_not_upper)
    moreover have "\<not> isUpper (CHR ''_'')" by (simp add: isUpper_def)
    ultimately show ?thesis using e by simp
  next
    assume "c \<in> set ''_code_coder_server''"
    with suffix_not_upper show ?thesis by blast
  qed
qed

theorem getImageTag_spec_witness:
  "getImageTag (\<lambda>s. s) (goDescriptor\<lparr>Name := ''My Go Project''\<rparr>) = ''my_go_project_code_coder_server''
   \<and> filter isUpper ''my_go_project_code_coder_server'' = []
   \<and> getImageTag (\<lambda>s. s) (testDescriptor\<lparr>Name := ''My Go Project''\<rparr>) = ''my_go_project_code_coder_server''"
proof -
  let ?d = "goDescriptor\<lparr>Name := ''My Go Project''\<rparr>"
  let ?d' = "testDescriptor\<lparr>Name := ''My Go Project''\<rparr>"
  have t: "getImageTag (\<lambda>s. s) ?d = ''my_go_project_code_coder_server''"
    by code_simp
  have a: "isASCII (Name ?d)"
    by (simp add: isASCII_def)
  have n: "Name ?d' = Name ?d"
    by simp
  note s = getImageTag_spec [of "\<lambda>s. s" ?d]
  from s [THEN conjunct2, THEN conjunct1, rule_format, OF n] t
  have 3: "getImageTag (\<lambda>s. s) ?d' = ''my_go_project_code_coder_server''"
    by (simp only:)
  from s [THEN conjunct2, THEN conjunct2, THEN conjunct2, THEN conjunct2, rule_format, OF a]
  have "\<forall>c \<in> set ''my_go_project_code_coder_server''. \<not> isUpper c"
    unfolding t by (rule ballI)
  then have 2: "filter isUpper ''my_go_project_code_coder_server'' = []"
    by (simp only: filter_empty_conv)
  from t 2 3 show ?thesis by (intro conjI)
qed

section \<open>Running and stopping the container\<close>

lemma waitForSignal_returns_iff:
  "waitForSignal es \<noteq> None \<longleftrightarrow> (\<exists>s. notified s \<and> Signal s \<in> set es)"
  by (induction es rule: waitForSignal.induct) auto

lemma waitForSignal_same:
  "notified s \<Longrightarrow> notified s' \<Longrightarrow>
   waitForSignal (pre @ Signal s # post) = waitForSignal (pre @ Signal s' # post)"
proof (induction pre)
  case Nil
  then show ?case by simp
next
  case (Cons e pre)
  then show ?case by (cases e) simp_all
qed

text \<open>
  Claim C2 does not hold as stated: the started process has terminated on its own, no
  signal arrives, and \<open>Run\<close> never returns.
\<close>

theorem Run_blocked_after_exit:
  "returned (Run \<lparr>startError = None, events = [Exited], killError = None\<rparr>
               \<lparr>cmd = \<lparr>Path = ''docker'', Args = [''run'', ''--rm'', ''img'']\<rparr>, name = ''abcdefghijklmnop''\<rparr>)
     = None"
  by (simp add: Run_def)

text \<open>
  Claim C2, amended.  Once the container process is started, \<open>Run\<close> waits without any
  timeout for a HUP, INT or TERM signal, all three treated alike; the termination of the
  container process does not end that wait.  \<open>Run\<close> returns exactly when such a signal
  arrives and the container process terminates (before or after the signal).
\<close>

theorem Run_returns_iff:
  assumes "startError w = None"
  shows "((returned (Run w c) \<noteq> None)
            = ((\<exists>s. notified s \<and> Signal s \<in> set (events w)) \<and> Exited \<in> set (events w)))
       \<and> (notified SIGHUP \<and> notified SIGINT \<and> notified SIGTERM)
       \<and> (\<forall>s s' pre post. notified s \<and> notified s' \<longrightarrow>
             Run (w\<lparr>events := pre @ Signal s # post\<rparr>) c
               = Run (w\<lparr>events := pre @ Signal s' # post\<rparr>) c)"
proof (intro conjI allI impI)
  show "(returned (Run w c) \<noteq> None)
           = ((\<exists>s. notified s \<and> Signal s \<in> set (events w)) \<and> Exited \<in> set (events w))"
  proof (cases "waitForSignal (events w)")
    case None
    with waitForSignal_returns_iff [of "events w"] assms show ?thesis
      by (simp add: Run_def)
  next
    case (Some u)
    with waitForSignal_returns_iff [of "events w"] assms show ?thesis
      by (simp add: Run_def stop_def)
  qed
next
  fix s s' pre post
  assume "notified s \<and> notified s'"
  then show "Run (w\<lparr>events := pre @ Signal s # post\<rparr>) c = Run (w\<lparr>events := pre @ Signal s' # post\<rparr>) c"
    using waitForSignal_same [of s s' pre post] assms
    by (simp add: Run_def stop_def split: option.splits)
qed (simp_all add: notified_def)

theorem Run_returns_iff_witness:
  "returned (Run \<lparr>startError = None, events = [Exited, Signal SIGCHLD, Signal SIGTERM], killError = None\<rparr>
               \<lparr>cmd = \<lparr>Path = ''docker'', Args = [''run'', ''--rm'', ''img'']\<rparr>, name = ''abcdefghijklmnop''\<rparr>)
     \<noteq> None
   \<and> returned (Run \<lparr>startError = None, events = [Signal SIGCHLD, Exited], killError = None\<rparr>
               \<lparr>cmd = \<lparr>Path = ''docker'', Args = [''run'', ''--rm'', ''img'']\<rparr>, name = ''abcdefghijklmnop''\<rparr>)
     = None"
proof -
  let ?c = "\<lparr>cmd = \<lparr>Path = ''docker'', Args = [''run'', ''--rm'', ''img'']\<rparr>, name = ''abcdefghijklmnop''\<rparr>"
  let ?w1 = "\<lparr>startError = None, events = [Exited, Signal SIGCHLD, Signal SIGTERM], killError = None\<rparr>"
  let ?w2 = "\<lparr>startError = None, events = [Signal SIGCHLD, Exited], killError = None\<rparr>"
  have 1: "returned (Run ?w1 ?c) \<noteq> None"
    using Run_returns_iff [of ?w1 ?c] by (auto simp: notified_def)
  have 2: "returned (Run ?w2 ?c) = None"
    using Run_returns_iff [of ?w2 ?c] by (auto simp: notified_def)
  from 1 2 show ?thesis by blast
qed

text \<open>
  Claim C3 does not hold as stated: when the \<open>docker kill\<close> command fails, \<open>Run\<close> returns
  that error to its caller.
\<close>

theorem Run_returns_kill_error:
  "returned (Run \<lparr>startError = None, events = [Signal SIGINT, Exited],
                  killError = Some (Error ''exit status 1'')\<rparr>
               \<lparr>cmd = \<lparr>Path = ''docker'', Args = [''run'', ''--rm'', ''img'']\<rparr>, name = ''abcdefghijklmnop''\<rparr>)
     = Some (Some (Error ''exit status 1''))"
  by (simp add: Run_def stop_def notified_def)

lemma foldl_snoc: "foldl (\<lambda>args v. args @ [v]) args vs = args @ vs"
  by (induction vs arbitrary: args) simp_all

lemma foldl_snoc_flag:
  "foldl (\<lambda>args v. args @ [flag, v]) args vs = args @ concat (map (\<lambda>v. [flag, v]) vs)"
  by (induction vs arbitrary: args) simp_all

lemma NewContainerContext_Args:
  assumes "getWorkspaceBinding d = Inr binding"
  shows "NewContainerContext rnd tag d url =
           Inr \<lparr>cmd = \<lparr>Path = ''docker'',
                       Args = [''run'', ''--rm'',
                               ''-p'', ''0.0.0.0:'' @ fmt_d (Port url) @ '':8080'',
                               ''--name'', makeRandomString rnd,
                               ''--mount'', binding,
                               ''-w'', WorkspaceFolderURL url]
                              @ RunArgs d
                              @ concat (map (\<lambda>v. [''-p'', v]) (ForwardPorts d))
                              @ (if RemoteUser d \<noteq> [] then [''-u'', RemoteUser d] else [])
                              @ [tag]\<rparr>,
                name = makeRandomString rnd\<rparr>"
  using assms by (simp add: NewContainerContext_def Let_def foldl_snoc foldl_snoc_flag)

lemma NewContainerContext_error:
  "getWorkspaceBinding d = Inl err \<Longrightarrow> NewContainerContext rnd tag d url = Inl err"
  by (simp add: NewContainerContext_def Let_def)

text \<open>
  Claim C3, amended.  For a container launched by \<open>NewContainerContext\<close> and started, when
  a HUP, INT or TERM signal is received \<open>Run\<close> issues, after the \<open>run\<close> command, exactly one
  engine command, \<open>kill\<close> with the generated container name (the name given to \<open>--name\<close>)
  as its only argument.  \<open>Run\<close> then returns once the container process has terminated,
  and what it returns is the result of the kill command: an error of that command is
  handed to the caller of \<open>Run\<close>.
\<close>

theorem Run_kills_once:
  assumes "NewContainerContext rnd tag d url = Inr c"
    and "startError w = None"
    and "notified s"
    and "Signal s \<in> set (events w)"
  shows "commands (Run w c) = [cmd c, \<lparr>Path = ''docker'', Args = [''kill'', makeRandomString rnd]\<rparr>]
       \<and> take 2 (drop 4 (Args (cmd c))) = [''--name'', makeRandomString rnd]
       \<and> returned (Run w c) = (if Exited \<in> set (events w) then Some (killError w) else None)"
proof -
  obtain binding where b: "getWorkspaceBinding d = Inr binding"
    using assms(1) NewContainerContext_error [of d _ rnd tag url]
    by (cases "getWorkspaceBinding d") auto
  have c: "name c = makeRandomString rnd"
    and a: "take 2 (drop 4 (Args (cmd c))) = [''--name'', makeRandomString rnd]"
    using assms(1) NewContainerContext_Args [OF b, of rnd tag url] by auto
  have "waitForSignal (events w) \<noteq> None"
    using waitForSignal_returns_iff [of "events w"] assms(3,4) by blast
  then obtain u where "waitForSignal (events w) = Some u" by blast
  then show ?thesis
    using assms(2) a c by (simp add: Run_def stop_def)
qed


lemma getWorkspaceBinding_goDescriptor:
  "getWorkspaceBinding goDescriptor
     = Inr ''source=/home/dev/project,target=/workspace/project,type=bind''"
  by code_simp

lemma makeRandomString_example:
  "makeRandomString (\<lambda>i. 7 * i + 3) = ''dkryFMTahovCJQXe''"
  by (simp add: makeRandomString_def letters_def upt_rec)

lemma fmt_d_example: "fmt_d 58818 = ''58818''"
  by (simp add: fmt_d_def decimal.simps digits_def)

theorem Run_kills_once_witness:
  "commands (Run \<lparr>startError = None, events = [Signal SIGCHLD, Signal SIGINT, Exited],
                   killError = Some (Error ''exit status 1'')\<rparr>
                (projr (NewContainerContext (\<lambda>i. 7 * i + 3) ''go_code_coder_server'' goDescriptor
                   \<lparr>Host = ''tororo.local'', Port = 58818, WorkspaceFolderURL = ''/workspace/project''\<rparr>)))
     ! 1 = \<lparr>Path = ''docker'', Args = [''kill'', ''dkryFMTahovCJQXe'']\<rparr>
   \<and> returned (Run \<lparr>startError = None, events = [Signal SIGCHLD, Signal SIGINT, Exited],
                   killError = Some (Error ''exit status 1'')\<rparr>
                (projr (NewContainerContext (\<lambda>i. 7 * i + 3) ''go_code_coder_server'' goDescriptor
                   \<lparr>Host = ''tororo.local'', Port = 58818, WorkspaceFolderURL = ''/workspace/project''\<rparr>)))
     = Some (Some (Error ''exit status 1''))"
proof -
  let ?url = "\<lparr>Host = ''tororo.local'', Port = 58818, WorkspaceFolderURL = ''/workspace/project''\<rparr>"
  let ?w = "\<lparr>startError = None, events = [Signal SIGCHLD, Signal SIGINT, Exited],
             killError = Some (Error ''exit status 1'')\<rparr>"
  let ?r = "NewContainerContext (\<lambda>i. 7 * i + 3) ''go_code_coder_server'' goDescriptor ?url"
  have 1: "?r = Inr (projr ?r)"
    by (simp add: NewContainerContext_Args [OF getWorkspaceBinding_goDescriptor])
  have 2: "startError ?w = None" by simp
  have 3: "notified SIGINT" by (simp add: notified_def)
  have 4: "Signal SIGINT \<in> set (events ?w)" by simp
  show ?thesis
    using Run_kills_once [OF 1 2 3 4] by (simp add: makeRandomString_example)
qed


section \<open>The run argument list\<close>

text \<open>
  Claim C8 does not hold as stated: in the argument list the port binding comes before the
  flag that names the container, not after it.
\<close>

theorem NewContainerContext_name_after_port:
  "take 6 (Args (cmd (projr (NewContainerContext (\<lambda>i. 7 * i + 3) ''go_code_coder_server'' goDescriptor
       \<lparr>Host = ''tororo.local'', Port = 58818, WorkspaceFolderURL = ''/workspace/project''\<rparr>))))
     = [''run'', ''--rm'', ''-p'', ''0.0.0.0:58818:8080'', ''--name'', ''dkryFMTahovCJQXe'']"
  by (simp add: NewContainerContext_Args [OF getWorkspaceBinding_goDescriptor]
        makeRandomString_example fmt_d_example)

text \<open>
  Claim C8, amended.  When the workspace mount (the descriptor's \<open>workspaceMount\<close>, or the
  default template if that is empty) interpolates to \<open>binding\<close>, the container is run with
  the arguments, in this order: \<open>run --rm\<close>; the port binding \<open>-p 0.0.0.0:<port>:8080\<close>;
  \<open>--name\<close> with the generated name; \<open>--mount\<close> with the binding; \<open>-w\<close> with the resolved
  workspace folder; every entry of \<open>runArgs\<close> as it is and in order; \<open>-p\<close> with each entry of
  \<open>forwardPorts\<close>; \<open>-u\<close> with \<open>remoteUser\<close> if and only if that is not empty; and last the
  image tag.
\<close>

theorem NewContainerContext_order:
  assumes "interpolate_Interpolate (getMapEnv d)
             (if WorkspaceMount d = [] then
                ''source=${localWorkspaceFolder},target=/workspace/${localWorkspaceFolderBasename},type=bind''
              else WorkspaceMount d) = Inr binding"
  shows "NewContainerContext rnd tag d url =
           Inr \<lparr>cmd = \<lparr>Path = ''docker'',
                       Args = [''run'', ''--rm'',
                               ''-p'', ''0.0.0.0:'' @ fmt_d (Port url) @ '':8080'',
                               ''--name'', makeRandomString rnd,
                               ''--mount'', binding,
                               ''-w'', WorkspaceFolderURL url]
                              @ RunArgs d
                              @ concat (map (\<lambda>v. [''-p'', v]) (ForwardPorts d))
                              @ (if RemoteUser d \<noteq> [] then [''-u'', RemoteUser d] else [])
                              @ [tag]\<rparr>,
                name = makeRandomString rnd\<rparr>"
proof -
  have "getWorkspaceBinding d = Inr binding"
    using assms by (simp add: getWorkspaceBinding_def Let_def)
  then show ?thesis by (rule NewContainerContext_Args)
qed

theorem NewContainerContext_order_witness:
  "NewContainerContext (\<lambda>i. 7 * i + 3) ''go_code_coder_server''
       (goDescriptor\<lparr>ForwardPorts := [''3000:3000'', ''9229'']\<rparr>)
       \<lparr>Host = ''tororo.local'', Port = 58818, WorkspaceFolderURL = ''/workspace/project''\<rparr>
     = Inr \<lparr>cmd = \<lparr>Path = ''docker'',
                   Args = [''run'', ''--rm'', ''-p'', ''0.0.0.0:58818:8080'',
                           ''--name'', ''dkryFMTahovCJQXe'',
                           ''--mount'', ''source=/home/dev/project,target=/workspace/project,type=bind'',
                           ''-w'', ''/workspace/project'',
                           ''--cap-add=SYS_PTRACE'', ''--security-opt'', ''seccomp=unconfined'',
                           ''-p'', ''3000:3000'', ''-p'', ''9229'',
                           ''-u'', ''vscode'',
                           ''go_code_coder_server'']\<rparr>,
            name = ''dkryFMTahovCJQXe''\<rparr>"
proof -
  let ?d = "goDescriptor\<lparr>ForwardPorts := [''3000:3000'', ''9229'']\<rparr>"
  have "getWorkspaceBinding ?d = getWorkspaceBinding goDescriptor"
    by (simp add: getWorkspaceBinding_def getMapEnv_def)
  then have "getWorkspaceBinding ?d
        = Inr ''source=/home/dev/project,target=/workspace/project,type=bind''"
    by (simp only: getWorkspaceBinding_goDescriptor)
  then have "interpolate_Interpolate (getMapEnv ?d)
          (if WorkspaceMount ?d = [] then
             ''source=${localWorkspaceFolder},target=/workspace/${localWorkspaceFolderBasename},type=bind''
           else WorkspaceMount ?d)
        = Inr ''source=/home/dev/project,target=/workspace/project,type=bind''"
    unfolding getWorkspaceBinding_def Let_def .
  from NewContainerContext_order [OF this, of "\<lambda>i. 7 * i + 3" "''go_code_coder_server''"
      "\<lparr>Host = ''tororo.local'', Port = 58818, WorkspaceFolderURL = ''/workspace/project''\<rparr>"]
  show ?thesis
    by (simp add: makeRandomString_example fmt_d_example goDescriptor_def)
qed


section \<open>Dockerfile synthesis\<close>

lemma createEntryScript_eq:
  "createEntryScript d = Inr (entrypointInjection (EncodeToString (entryScript d)))"
  by (simp add: createEntryScript_def createEntryScriptCommands_def Let_def
        entrypointInjection_def entryScript_def)

lemma installExtensions_eq:
  "installExtensions d = Inr (strings_Join (map extensionLine (Extensions d)) [CHR 0x0A])"
  by (simp add: installExtensions_def Let_def extensionLine_def [abs_def])

lemma load_update: "a < length h \<Longrightarrow> load (h[a := m]) a = m"
  by (simp add: load_def)

lemma load_alloc: "load (h @ [m]) (length h) = m"
  by (simp add: load_def)

lemma createSettingJson_fetch_failed:
  assumes "isl (repository ''settings.json'') \<or>
           isl (unmarshalMap L (projr (repository ''settings.json'')))"
  shows "fst (createSettingJson L h d repository) =
           (case dumpAsJson L (JMap (descriptorSettings h d)) of
              Inl err \<Rightarrow> Inl err
            | Inr text \<Rightarrow> Inr (settingsInjection (EncodeToString text)))"
  using assms
  by (auto simp: createSettingJson_def Let_def alloc_def descriptorSettings_def load_alloc
        settingsInjection_def isl_def
      split: option.splits sum.splits)

lemma createSettingJson_fst:
  assumes "validDescriptor h d"
  shows "fst (createSettingJson L h d repository) =
           (case dumpAsJson L (JMap (settingsToWrite L h d repository)) of
              Inl err \<Rightarrow> Inl err
            | Inr text \<Rightarrow> Inr (settingsInjection (EncodeToString text)))"
proof (cases "Settings d")
  case None
  then show ?thesis
    by (auto simp: createSettingJson_def Let_def alloc_def descriptorSettings_def load_alloc
          settingsToWrite_def settingsInjection_def
        split: sum.splits)
next
  case (Some a)
  with assms have "a < length h" by (simp add: validDescriptor_def)
  with Some show ?thesis
    by (auto simp: createSettingJson_def Let_def descriptorSettings_def load_update
          settingsToWrite_def settingsInjection_def
        split: sum.splits)
qed

lemma createSettingJson_snd:
  "snd (createSettingJson L h d repository) =
     (let (a, h1) = (case Settings d of None \<Rightarrow> alloc h | Some a \<Rightarrow> (a, h))
      in case repository ''settings.json'' of
           Inl err \<Rightarrow> h1
         | Inr contents \<Rightarrow>
             (case unmarshalMap L contents of
                Inl err \<Rightarrow> h1
              | Inr remote \<Rightarrow> h1[a := mergo_Merge (load h1 a) remote]))"
  by (auto simp: createSettingJson_def Let_def split: option.splits sum.splits prod.splits)




lemma WrapDockerFile_eq:
  \<open>fst (WrapDockerFile L ReadFile h d repository) =
     (case ReadFile (filepath_Join [DirPath d, Build_Dockerfile d]) of
        Inl err \<Rightarrow> Inl err
      | Inr base \<Rightarrow>
          Inr (strings_Join
            [base,
             CodeServerInstall,
             (case fst (createSettingJson L h d repository) of Inl err \<Rightarrow> [] | Inr b \<Rightarrow> b),
             (case createKeybindingsJson L d repository of Inl err \<Rightarrow> [] | Inr b \<Rightarrow> b),
             entrypointInjection (EncodeToString (entryScript d)),
             strings_Join (map extensionLine (Extensions d)) [CHR 0x0A],
             ''RUN echo "auth: none" > /opt/code-server/config.yml'',
             ''RUN chmod -R o+wr /opt/code-server/'',
             Entrypoint] [CHR 0x0A]))\<close>
  by (cases "ReadFile (filepath_Join [DirPath d, Build_Dockerfile d])")
     (simp_all add: WrapDockerFile_def Let_def split_def createEntryScript_eq installExtensions_eq
        modifyCodeServerDirPermissions_def createConfigYaml_def)


lemma keybindingsLoop_two:
  "keybindingsLoop L repository [f1, f2] =
     Inr (case keybindingsCandidate L repository f1 of
            Some b \<Rightarrow> b
          | None \<Rightarrow> (case keybindingsCandidate L repository f2 of Some b \<Rightarrow> b | None \<Rightarrow> []))"
  by (simp add: keybindingsCandidate_def keybindingsInjection_def Let_def
      split: sum.splits)


lemma createKeybindingsJson_all_failed:
  assumes "\<forall>filename. isl (repository filename)"
  shows "createKeybindingsJson L d repository = Inr []"
proof -
  have "keybindingsCandidate L repository f = None" for f
    using spec [OF assms, of f] by (auto simp: keybindingsCandidate_def isl_def split: sum.splits)
  then show ?thesis
    by (simp add: createKeybindingsJson_def keybindingsJsonFilenames_def keybindingsLoop_two
          del: keybindingsLoop.simps)
qed

lemma EncodeToString_empty_object: "EncodeToString ''{}\<newline>'' = ''e30K''"
  by (simp add: enc_def encodeStd_def)

lemma dumpAsJson_empty_object: "dumpAsJson L (JMap []) = Inr ''{}\<newline>''"
  by (simp add: dumpAsJson_def bracket_def)

lemma WrapDockerFile_snd:
  "ReadFile (filepath_Join [DirPath d, Build_Dockerfile d]) = Inr base \<Longrightarrow>
   snd (WrapDockerFile L ReadFile h d repository) = snd (createSettingJson L h d repository)"
  by (simp add: WrapDockerFile_def Let_def split_def createEntryScript_eq)




text \<open>
  Claim C7.  Let the descriptor's settings be empty (absent, or an object without entries)
  and let every \<open>Get\<close> of the repository fail.  Then the settings block carries the payload
  \<open>e30K\<close>, whose base64 decoding is \<open>{}\<close> followed by a line feed: the encoding of the
  empty object.  The failed fetches are not an error of the synthesis: \<open>WrapDockerFile\<close>
  fails only if the base Dockerfile cannot be read, and otherwise returns the Dockerfile
  with that settings block and no keybindings block.
\<close>

theorem WrapDockerFile_unreachable_repository:
  assumes "\<forall>filename. isl (repository filename)"
    and "descriptorSettings h d = []"
  shows \<open>fst (createSettingJson L h d repository) = Inr (settingsInjection ''e30K'')
       \<and> base64_d ''e30K'' = Some ''{}\<newline>''
       \<and> dumpAsJson L (JMap []) = Inr ''{}\<newline>''
       \<and> fst (WrapDockerFile L ReadFile h d repository) =
           (case ReadFile (filepath_Join [DirPath d, Build_Dockerfile d]) of
              Inl err \<Rightarrow> Inl err
            | Inr base \<Rightarrow>
                Inr (strings_Join
                  [base,
                   ''RUN curl -fsSL https://code-server.dev/install.sh | sh'',
                   settingsInjection ''e30K'',
                   [],
                   entrypointInjection (EncodeToString (entryScript d)),
                   strings_Join (map extensionLine (Extensions d)) [CHR 0x0A],
                   ''RUN echo "auth: none" > /opt/code-server/config.yml'',
                   ''RUN chmod -R o+wr /opt/code-server/'',
                   ''ENTRYPOINT ["/opt/code-server/entrypoint.sh"]''] [CHR 0x0A]))\<close>
proof -
  have s: "fst (createSettingJson L h d repository) = Inr (settingsInjection ''e30K'')"
    using assms(1) [rule_format, of "''settings.json''"] assms(2)
    by (simp add: createSettingJson_fetch_failed dumpAsJson_empty_object
          enc_def encodeStd_def)
  have k: "createKeybindingsJson L d repository = Inr []"
    using assms(1) by (rule createKeybindingsJson_all_failed)
  have b: "base64_d ''e30K'' = Some ''{}\<newline>''"
    using base64_d_EncodeToString [of "''{}\<newline>''"]
    by (simp only: EncodeToString_empty_object)
  have w: \<open>fst (WrapDockerFile L ReadFile h d repository) =
           (case ReadFile (filepath_Join [DirPath d, Build_Dockerfile d]) of
              Inl err \<Rightarrow> Inl err
            | Inr base \<Rightarrow>
                Inr (strings_Join
                  [base,
                   ''RUN curl -fsSL https://code-server.dev/install.sh | sh'',
                   settingsInjection ''e30K'',
                   [],
                   entrypointInjection (EncodeToString (entryScript d)),
                   strings_Join (map extensionLine (Extensions d)) [CHR 0x0A],
                   ''RUN echo "auth: none" > /opt/code-server/config.yml'',
                   ''RUN chmod -R o+wr /opt/code-server/'',
                   ''ENTRYPOINT ["/opt/code-server/entrypoint.sh"]''] [CHR 0x0A]))\<close>
    by (cases "ReadFile (filepath_Join [DirPath d, Build_Dockerfile d])")
       (simp_all add: WrapDockerFile_eq s k CodeServerInstall_def Entrypoint_def)
  from s b dumpAsJson_empty_object [of L] w show ?thesis
    by (intro conjI)
qed

lemma EncodeToString_entryScript_testDescriptor:
  "EncodeToString (entryScript testDescriptor) =
     ''IyEvYmluL2Jhc2gKc2V0IC1lCnNldCAteAoKY29kZS1zZXJ2ZXIgLS11c2VyLWRhdGEtZGlyIC9vcHQvY29kZS1zZXJ2ZXIvLnZzY29kZSAtLWNvbmZpZyAvb3B0L2NvZGUtc2VydmVyL2NvbmZpZy55bWwgLS1iaW5kLWFkZHIgMC4wLjAuMDo4MDgw''"
  by (simp add: entryScript_def testDescriptor_def enc_def encodeStd_def)

text \<open>
  The witness is the repository's own test \<open>TestDockerfile\<close>: the base Dockerfile
  \<open>FROM golang:1.12.5\<close>, no settings, no extensions and a repository without files give
  exactly the text the test expects.
\<close>

theorem WrapDockerFile_unreachable_repository_witness:
  "fst (WrapDockerFile exampleLibrary (oneFile ''/tmp/Dockerfile123456789'' ''FROM golang:1.12.5'')
          [] testDescriptor (MemoryRepository_Get []))
     = Inr expectDockerfileContents"
proof -
  have 1: "\<forall>filename. isl (MemoryRepository_Get [] filename)"
    by (simp add: MemoryRepository_Get_def)
  have 2: "descriptorSettings ([] :: int store) testDescriptor = []"
    by (simp add: descriptorSettings_def testDescriptor_def)
  have p: "filepath_Join [DirPath testDescriptor, Build_Dockerfile testDescriptor]
             = ''/tmp/Dockerfile123456789''"
    by code_simp
  have e: "Extensions testDescriptor = []"
    by (simp add: testDescriptor_def)
  show ?thesis
    using WrapDockerFile_unreachable_repository [OF 1 2, of exampleLibrary
        "oneFile ''/tmp/Dockerfile123456789'' ''FROM golang:1.12.5''"]
    by (simp add: p e oneFile_def EncodeToString_entryScript_testDescriptor
          expectDockerfileContents_def settingsInjection_def entrypointInjection_def)
qed


section \<open>Settings and keybindings\<close>

lemma map_of_mergo_Merge:
  "map_of (mergo_Merge dst src) k =
     (case map_of dst k of Some v \<Rightarrow> Some v | None \<Rightarrow> map_of src k)"
proof (cases "map_of dst k")
  case None
  have "map_of (filter (\<lambda>kv. map_of dst (fst kv) = None) src) k = map_of src k"
    using None by (induction src) auto
  with None show ?thesis
    by (simp add: mergo_Merge_def map_add_def)
next
  case (Some v)
  then show ?thesis
    by (simp add: mergo_Merge_def map_add_def)
qed

text \<open>
  Claim C4.  Let the descriptor be valid in the store, let the repository return a document
  under the key \<open>settings.json\<close> and let the document parse to the object \<open>remote\<close>.  The
  object written is the merge of the descriptor's settings with \<open>remote\<close>: under every key
  it has the descriptor's value if the descriptor has one, and the remote value otherwise.
  If that object can be encoded, with text \<open>text\<close>, the settings block carries the base64
  of \<open>text\<close>, and decoding the payload gives \<open>text\<close> back: the JSON text of the merged
  object.  (If it cannot be encoded, \<open>createSettingJson\<close> fails and no block is written.)
\<close>

theorem createSettingJson_merge:
  assumes "validDescriptor h d"
    and "repository ''settings.json'' = Inr contents"
    and "unmarshalMap L contents = Inr remote"
  shows "(case dumpAsJson L (JMap (mergo_Merge (descriptorSettings h d) remote)) of
            Inl err \<Rightarrow> fst (createSettingJson L h d repository) = Inl err
          | Inr text \<Rightarrow>
              fst (createSettingJson L h d repository) = Inr (settingsInjection (EncodeToString text))
              \<and> base64_d (EncodeToString text) = Some text)
       \<and> map_of (mergo_Merge (descriptorSettings h d) remote) =
           (\<lambda>k. case map_of (descriptorSettings h d) k of
                   Some v \<Rightarrow> Some v
                 | None \<Rightarrow> map_of remote k)"
proof -
  have "settingsToWrite L h d repository = mergo_Merge (descriptorSettings h d) remote"
    using assms(2,3) by (simp add: settingsToWrite_def)
  with createSettingJson_fst [OF assms(1), of L repository]
  have "fst (createSettingJson L h d repository) =
          (case dumpAsJson L (JMap (mergo_Merge (descriptorSettings h d) remote)) of
             Inl err \<Rightarrow> Inl err
           | Inr text \<Rightarrow> Inr (settingsInjection (EncodeToString text)))"
    by simp
  then have 1: "case dumpAsJson L (JMap (mergo_Merge (descriptorSettings h d) remote)) of
            Inl err \<Rightarrow> fst (createSettingJson L h d repository) = Inl err
          | Inr text \<Rightarrow>
              fst (createSettingJson L h d repository) = Inr (settingsInjection (EncodeToString text))
              \<and> base64_d (EncodeToString text) = Some text"
    by (simp add: base64_d_EncodeToString split: sum.splits)
  have 2: "map_of (mergo_Merge (descriptorSettings h d) remote) =
           (\<lambda>k. case map_of (descriptorSettings h d) k of
                   Some v \<Rightarrow> Some v
                 | None \<Rightarrow> map_of remote k)"
    by (rule ext) (rule map_of_mergo_Merge)
  from 1 2 show ?thesis by (rule conjI)
qed

lemma unmarshalMap_remoteSettingsJson:
  "unmarshalMap exampleLibrary remoteSettingsJson =
     Inr [(''editor.tabSize'', JNumber 2), (''go.gopath'', JString ''/home/me/go'')]"
  by (simp add: exampleLibrary_def exampleDocuments_def)

lemma dumpAsJson_merged_example:
  \<open>dumpAsJson exampleLibrary
     (JMap (mergo_Merge (descriptorSettings goStore goDescriptor)
              [(''editor.tabSize'', JNumber 2), (''go.gopath'', JString ''/home/me/go'')]))
   = Inr (strings_Join
       [''{'',
        ''  "editor.tabSize": 2,'',
        ''  "go.gopath": "/go",'',
        ''  "go.goroot": "/usr/local/go",'',
        ''  "go.useLanguageServer": true'',
        ''}'',
        ''''] [CHR 0x0A])\<close>
  by code_simp

text \<open>
  The witness: the descriptor declares \<open>go.gopath\<close> as \<open>/go\<close>, the remote settings give
  \<open>/home/me/go\<close> for it and add \<open>editor.tabSize\<close>; the payload decodes to the object with
  the descriptor's \<open>go.gopath\<close> and the added key.
\<close>

theorem createSettingJson_merge_witness:
  \<open>\<exists>payload.
      fst (createSettingJson exampleLibrary goStore goDescriptor
             (MemoryRepository_Get [(''settings.json'', remoteSettingsJson)]))
        = Inr (settingsInjection payload)
    \<and> base64_d payload = Some (strings_Join
       [''{'',
        ''  "editor.tabSize": 2,'',
        ''  "go.gopath": "/go",'',
        ''  "go.goroot": "/usr/local/go",'',
        ''  "go.useLanguageServer": true'',
        ''}'',
        ''''] [CHR 0x0A])\<close>
proof -
  have 1: "validDescriptor (goStore :: int store) goDescriptor"
    by (simp add: validDescriptor_def goDescriptor_def goStore_def)
  have 2: "MemoryRepository_Get [(''settings.json'', remoteSettingsJson)] ''settings.json''
             = Inr remoteSettingsJson"
    by (simp add: MemoryRepository_Get_def)
  from createSettingJson_merge [where repository = "MemoryRepository_Get [(''settings.json'', remoteSettingsJson)]"
      and L = exampleLibrary and h = goStore and d = goDescriptor,
      OF 1 2 unmarshalMap_remoteSettingsJson]
  show ?thesis
    by (simp only: dumpAsJson_merged_example sum.case) blast
qed


lemma filepath_Join_goDescriptor:
  "filepath_Join [DirPath goDescriptor, Build_Dockerfile goDescriptor]
     = ''/home/dev/project/.devcontainer/Dockerfile''"
  by code_simp

text \<open>
  Claim C6 against the program.  The descriptor's \<open>settings\<close> map is the object at address 0
  with three keys.  After \<open>WrapDockerFile\<close> has run with a repository that returns remote
  settings, the same object has a fourth key, \<open>editor.tabSize\<close>, taken from the remote
  settings: \<open>createSettingJson\<close> merges into the map the descriptor refers to.
\<close>

theorem WrapDockerFile_writes_descriptor_settings:
  "Settings goDescriptor = Some 0
   \<and> map fst (load (goStore :: int store) 0) = [''go.useLanguageServer'', ''go.gopath'', ''go.goroot'']
   \<and> map fst (load (snd (WrapDockerFile exampleLibrary
                            (oneFile ''/home/dev/project/.devcontainer/Dockerfile''
                               ''FROM mcr.microsoft.com/vscode/devcontainers/go:0-1-bullseye'')
                            goStore goDescriptor
                            (MemoryRepository_Get [(''settings.json'', remoteSettingsJson)]))) 0)
       = [''go.useLanguageServer'', ''go.gopath'', ''go.goroot'', ''editor.tabSize'']"
proof -
  let ?fs = "oneFile ''/home/dev/project/.devcontainer/Dockerfile''
               ''FROM mcr.microsoft.com/vscode/devcontainers/go:0-1-bullseye''"
  let ?repo = "MemoryRepository_Get [(''settings.json'', remoteSettingsJson)]"
  have r: "?fs (filepath_Join [DirPath goDescriptor, Build_Dockerfile goDescriptor])
             = Inr ''FROM mcr.microsoft.com/vscode/devcontainers/go:0-1-bullseye''"
    by (simp add: filepath_Join_goDescriptor oneFile_def)
  have "snd (WrapDockerFile exampleLibrary ?fs goStore goDescriptor ?repo)
          = snd (createSettingJson exampleLibrary goStore goDescriptor ?repo)"
    using r by (rule WrapDockerFile_snd)
  also have "\<dots> = [[(''go.useLanguageServer'', JBool True),
                      (''go.gopath'', JString ''/go''),
                      (''go.goroot'', JString ''/usr/local/go''),
                      (''editor.tabSize'', JNumber 2)]]"
    by (simp add: createSettingJson_snd unmarshalMap_remoteSettingsJson MemoryRepository_Get_def
          goDescriptor_def goStore_def load_def mergo_Merge_def)
  finally show ?thesis
    by (simp add: goDescriptor_def goStore_def load_def)
qed

lemma unmarshalKeyBindings_empty_list:
  "unmarshalKeyBindings exampleLibrary ''[]'' = Inr (Some [])"
  by (simp add: exampleLibrary_def exampleKeybindings_def remoteKeybindingsJson_def)

lemma unmarshalKeyBindings_remoteKeybindingsJson:
  "unmarshalKeyBindings exampleLibrary remoteKeybindingsJson
     = Inr (Some [\<lparr>Key = ''ctrl+b'', Command = ''workbench.action.tasks.build'', When = ''editorFocus''\<rparr>])"
  by (simp add: exampleLibrary_def exampleKeybindings_def)

lemma dumpAsJson_empty_list:
  "dumpAsJson exampleLibrary (keyBindingsValue (Some [])) = Inr ''[]\<newline>''"
  by (simp add: dumpAsJson_def keyBindingsValue_def bracket_def)

lemma dumpAsJson_remote_keybindings:
  \<open>dumpAsJson exampleLibrary
     (keyBindingsValue
        (Some [\<lparr>Key = ''ctrl+b'', Command = ''workbench.action.tasks.build'', When = ''editorFocus''\<rparr>]))
   = Inr (strings_Join
       [''['',
        ''  {'',
        ''    "key": "ctrl+b",'',
        ''    "command": "workbench.action.tasks.build",'',
        ''    "when": "editorFocus"'',
        ''  }'',
        '']'',
        ''''] [CHR 0x0A])\<close>
  by (simp add: dumpAsJson_def keyBindingsValue_def bracket_def objectMember_def
        exampleLibrary_def newline_def)

text \<open>
  Claim C5 does not hold as stated: the generic name \<open>keybindings.json\<close> is tried first.
  With valid content under both names, the block carries the content of
  \<open>keybindings.json\<close> (an empty list, payload \<open>W10K\<close>), not that of the platform-specific
  \<open>keybindingsMac.json\<close>.
\<close>

theorem createKeybindingsJson_generic_first:
  "createKeybindingsJson exampleLibrary goDescriptor
     (MemoryRepository_Get [(''keybindingsMac.json'', remoteKeybindingsJson), (''keybindings.json'', ''[]'')])
     = Inr (keybindingsInjection ''W10K'')
   \<and> keybindingsCandidate exampleLibrary
         (MemoryRepository_Get [(''keybindingsMac.json'', remoteKeybindingsJson), (''keybindings.json'', ''[]'')])
         ''keybindingsMac.json''
       = Some (keybindingsInjection
           ''WwogIHsKICAgICJrZXkiOiAiY3RybCtiIiwKICAgICJjb21tYW5kIjogIndvcmtiZW5jaC5hY3Rpb24udGFza3MuYnVpbGQiLAogICAgIndoZW4iOiAiZWRpdG9yRm9jdXMiCiAgfQpdCg=='')"
proof -
  let ?repo = "MemoryRepository_Get [(''keybindingsMac.json'', remoteKeybindingsJson), (''keybindings.json'', ''[]'')]"
  have g: "?repo ''keybindings.json'' = Inr ''[]''"
    by (simp add: MemoryRepository_Get_def)
  have m: "?repo ''keybindingsMac.json'' = Inr remoteKeybindingsJson"
    by (simp add: MemoryRepository_Get_def)
  have n: "remoteKeybindingsJson \<noteq> []"
    by (simp add: remoteKeybindingsJson_def)
  have 1: "keybindingsCandidate exampleLibrary ?repo ''keybindings.json''
             = Some (keybindingsInjection ''W10K'')"
    unfolding keybindingsCandidate_def g
    by (simp add: unmarshalKeyBindings_empty_list dumpAsJson_empty_list enc_def encodeStd_def)
  have 2: "keybindingsCandidate exampleLibrary ?repo ''keybindingsMac.json''
             = Some (keybindingsInjection
           ''WwogIHsKICAgICJrZXkiOiAiY3RybCtiIiwKICAgICJjb21tYW5kIjogIndvcmtiZW5jaC5hY3Rpb24udGFza3MuYnVpbGQiLAogICAgIndoZW4iOiAiZWRpdG9yRm9jdXMiCiAgfQpdCg=='')"
    unfolding keybindingsCandidate_def m
    by (simp add: n unmarshalKeyBindings_remoteKeybindingsJson dumpAsJson_remote_keybindings
          enc_def encodeStd_def)
  have "createKeybindingsJson exampleLibrary goDescriptor ?repo = Inr (keybindingsInjection ''W10K'')"
    unfolding createKeybindingsJson_def keybindingsJsonFilenames_def
    by (simp only: keybindingsLoop_two 1 option.case)
  then show ?thesis using 2 by (intro conjI)
qed

text \<open>
  Claim C5, amended.  The keybindings step tries exactly two names of the repository, in
  this order: the generic \<open>keybindings.json\<close> first, then the platform-specific
  \<open>keybindingsMac.json\<close>.  It uses the first of them whose fetch succeeds with content that
  is not empty, parses and can be encoded.  If neither does, the block is empty: no
  keybindings file is written.  No other name of the repository matters.
\<close>

theorem createKeybindingsJson_candidates:
  "createKeybindingsJson L d repository =
     Inr (case keybindingsCandidate L repository ''keybindings.json'' of
            Some b \<Rightarrow> b
          | None \<Rightarrow>
              (case keybindingsCandidate L repository ''keybindingsMac.json'' of
                 Some b \<Rightarrow> b
               | None \<Rightarrow> []))
   \<and> (\<forall>repository'.
         repository' ''keybindings.json'' = repository ''keybindings.json'' \<and>
         repository' ''keybindingsMac.json'' = repository ''keybindingsMac.json'' \<longrightarrow>
         createKeybindingsJson L d repository' = createKeybindingsJson L d repository)"
proof -
  have 1: "createKeybindingsJson L d r =
     Inr (case keybindingsCandidate L r ''keybindings.json'' of
            Some b \<Rightarrow> b
          | None \<Rightarrow>
              (case keybindingsCandidate L r ''keybindingsMac.json'' of
                 Some b \<Rightarrow> b
               | None \<Rightarrow> []))" for r
    unfolding createKeybindingsJson_def keybindingsJsonFilenames_def
    by (rule keybindingsLoop_two)
  show ?thesis
  proof (intro conjI allI impI)
    show "createKeybindingsJson L d repository =
       Inr (case keybindingsCandidate L repository ''keybindings.json'' of
              Some b \<Rightarrow> b
            | None \<Rightarrow>
                (case keybindingsCandidate L repository ''keybindingsMac.json'' of
                   Some b \<Rightarrow> b
                 | None \<Rightarrow> []))"
      by (rule 1)
  next
    fix repository'
    assume a: "repository' ''keybindings.json'' = repository ''keybindings.json'' \<and>
               repository' ''keybindingsMac.json'' = repository ''keybindingsMac.json''"
    have g: "keybindingsCandidate L repository' ''keybindings.json''
               = keybindingsCandidate L repository ''keybindings.json''"
      using a unfolding keybindingsCandidate_def by (simp only:)
    have m: "keybindingsCandidate L repository' ''keybindingsMac.json''
               = keybindingsCandidate L repository ''keybindingsMac.json''"
      using a unfolding keybindingsCandidate_def by (simp only:)
    show "createKeybindingsJson L d repository' = createKeybindingsJson L d repository"
      by (simp only: 1 g m)
  qed
qed

theorem createKeybindingsJson_candidates_witness:
  "createKeybindingsJson exampleLibrary goDescriptor
     (MemoryRepository_Get [(''keybindingsMac.json'', remoteKeybindingsJson), (''settings.json'', ''{}'')])
   = createKeybindingsJson exampleLibrary goDescriptor
     (MemoryRepository_Get [(''keybindingsMac.json'', remoteKeybindingsJson)])"
proof -
  let ?r = "MemoryRepository_Get [(''keybindingsMac.json'', remoteKeybindingsJson)]"
  let ?r' = "MemoryRepository_Get [(''keybindingsMac.json'', remoteKeybindingsJson), (''settings.json'', ''{}'')]"
  have "?r' ''keybindings.json'' = ?r ''keybindings.json'' \<and>
        ?r' ''keybindingsMac.json'' = ?r ''keybindingsMac.json''"
    by (simp add: MemoryRepository_Get_def)
  with createKeybindingsJson_candidates [of exampleLibrary goDescriptor ?r]
  show ?thesis by blast
qed


section \<open>Workspace folder\<close>

lemma hasDollarBrace_iff: "hasDollarBrace r \<longleftrightarrow> (\<exists>u v. r = u @ ''${'' @ v)"
proof (induction r rule: hasDollarBrace.induct)
  case 1
  show ?case by simp
next
  case (2 c)
  show ?case
  proof
    assume "\<exists>u v. [c] = u @ ''${'' @ v"
    then obtain u v where "[c] = u @ ''${'' @ v" by blast
    then have "length [c] = length (u @ ''${'' @ v)" by simp
    then show "hasDollarBrace [c]" by simp
  qed simp
next
  case (3 c c' cs)
  show ?case
  proof
    assume "hasDollarBrace (c # c' # cs)"
    then consider "c = CHR ''$'' \<and> c' = CHR ''{''" | "hasDollarBrace (c' # cs)"
      by auto
    then show "\<exists>u v. c # c' # cs = u @ ''${'' @ v"
    proof cases
      case 1
      then have "c # c' # cs = [] @ ''${'' @ cs" by simp
      then show ?thesis by blast
    next
      case 2
      with "3.IH" obtain u v where "c' # cs = u @ ''${'' @ v" by blast
      then have "c # c' # cs = (c # u) @ ''${'' @ v" by simp
      then show ?thesis by blast
    qed
  next
    assume "\<exists>u v. c # c' # cs = u @ ''${'' @ v"
    then obtain u v where uv: "c # c' # cs = u @ ''${'' @ v" by blast
    show "hasDollarBrace (c # c' # cs)"
    proof (cases u)
      case Nil
      with uv show ?thesis by simp
    next
      case (Cons x u')
      with uv have "c' # cs = u' @ ''${'' @ v" by simp
      then have "\<exists>u v. c' # cs = u @ ''${'' @ v" by blast
      with "3.IH" have "hasDollarBrace (c' # cs)" by simp
      then show ?thesis by simp
    qed
  qed
qed

lemma hasDollarBrace_append:
  assumes "\<not> hasDollarBrace a" and "\<not> hasDollarBrace b"
    and "a = [] \<or> b = [] \<or> last a \<noteq> CHR ''$'' \<or> hd b \<noteq> CHR ''{''"
  shows "\<not> hasDollarBrace (a @ b)"
  using assms
proof (induction a rule: hasDollarBrace.induct)
  case 1
  then show ?case by simp
next
  case (2 c)
  then show ?case by (cases b) auto
next
  case (3 c c' cs)
  then show ?case by auto
qed

lemma no_dollar_no_hasDollarBrace: "CHR ''$'' \<notin> set v \<Longrightarrow> \<not> hasDollarBrace v"
  by (induction v rule: hasDollarBrace.induct) auto

lemma parseTemplate_text:
  "\<not> (c = CHR ''$'' \<and> cs \<noteq> [] \<and> hd cs = CHR ''{'') \<Longrightarrow>
   parseTemplate (c # cs) = map_option (\<lambda>segs. Text c # segs) (parseTemplate cs)"
  by auto

lemma parseTemplate_placeholder:
  "c = CHR ''$'' \<and> cs \<noteq> [] \<and> hd cs = CHR ''{'' \<Longrightarrow>
   dropWhile (\<lambda>x. x \<noteq> CHR ''}'') (tl cs) \<noteq> [] \<Longrightarrow>
   parseTemplate (c # cs) =
     map_option (\<lambda>segs. Placeholder (takeWhile (\<lambda>x. x \<noteq> CHR ''}'') (tl cs)) # segs)
       (parseTemplate (tl (dropWhile (\<lambda>x. x \<noteq> CHR ''}'') (tl cs))))"
  by (auto simp: Let_def)

lemma parseTemplate_unclosed:
  "c = CHR ''$'' \<and> cs \<noteq> [] \<and> hd cs = CHR ''{'' \<Longrightarrow>
   dropWhile (\<lambda>x. x \<noteq> CHR ''}'') (tl cs) = [] \<Longrightarrow>
   parseTemplate (c # cs) = None"
  by (auto simp: Let_def)

lemma parseTemplate_head_Text:
  "parseTemplate (c # cs) = Some (Text x # segs) \<Longrightarrow> x = c"
  by (auto simp: Let_def split: if_splits)

lemma parseTemplate_no_dollarThenBrace:
  "parseTemplate t = Some segs \<Longrightarrow> \<not> dollarThenBrace segs"
proof (induction t arbitrary: segs rule: parseTemplate.induct)
  case 1
  then show ?case by simp
next
  case (2 c cs)
  show ?case
  proof (cases "c = CHR ''$'' \<and> cs \<noteq> [] \<and> hd cs = CHR ''{''")
    case True
    let ?rest = "dropWhile (\<lambda>x. x \<noteq> CHR ''}'') (tl cs)"
    let ?name = "takeWhile (\<lambda>x. x \<noteq> CHR ''}'') (tl cs)"
    have ne: "?rest \<noteq> []"
    proof
      assume "?rest = []"
      from parseTemplate_unclosed [OF True this] "2.prems" show False by simp
    qed
    from parseTemplate_placeholder [OF True ne] "2.prems" obtain segs' where
      s: "parseTemplate (tl ?rest) = Some segs'" and e: "segs = Placeholder ?name # segs'"
      by (cases "parseTemplate (tl ?rest)") auto
    from "2.IH"(1) [OF True refl refl ne s] have "\<not> dollarThenBrace segs'" .
    with e show ?thesis by (cases segs') auto
  next
    case False
    from parseTemplate_text [OF False] "2.prems" obtain segs' where
      s: "parseTemplate cs = Some segs'" and e: "segs = Text c # segs'"
      by (cases "parseTemplate cs") auto
    from "2.IH"(2) [OF False s] have n: "\<not> dollarThenBrace segs'" .
    show ?thesis
    proof (cases segs')
      case Nil
      with e show ?thesis by simp
    next
      case (Cons s' rest)
      show ?thesis
      proof (cases s')
        case (Text x)
        with Cons s obtain c' cs' where cs: "cs = c' # cs'"
          by (cases cs) auto
        with Cons Text s have "x = c'"
          using parseTemplate_head_Text [of c' cs' x rest] by simp
        with False cs have "\<not> (c = CHR ''$'' \<and> x = CHR ''{'')" by auto
        with n e Cons Text show ?thesis by simp
      next
        case (Placeholder m)
        with n e Cons show ?thesis by simp
      qed
    qed
  qed
qed


lemma dollarThenBrace_tail: "\<not> dollarThenBrace (s # segs) \<Longrightarrow> \<not> dollarThenBrace segs"
proof (cases segs)
  case Nil
  then show ?thesis by simp
next
  case (Cons s' rest)
  assume "\<not> dollarThenBrace (s # segs)"
  with Cons show ?thesis by (cases s; cases s') simp_all
qed

lemma expand_undefined:
  "Placeholder n \<in> set segs \<Longrightarrow> map_of env n = None \<Longrightarrow> isl (expand env segs)"
proof (induction segs)
  case Nil
  then show ?case by simp
next
  case (Cons s segs)
  show ?case
  proof (cases s)
    case (Text c)
    with Cons show ?thesis by (cases "expand env segs") auto
  next
    case (Placeholder m)
    show ?thesis
    proof (cases "map_of env m")
      case None
      with Placeholder show ?thesis by simp
    next
      case (Some v)
      with Placeholder Cons have "Placeholder n \<in> set segs" by auto
      with Cons have "isl (expand env segs)" by simp
      with Placeholder Some show ?thesis by (cases "expand env segs") auto
    qed
  qed
qed

lemma expand_defined:
  "(\<forall>n. Placeholder n \<in> set segs \<longrightarrow> map_of env n \<noteq> None) \<Longrightarrow>
   expand env segs =
     Inr (concat (map (\<lambda>seg. case seg of Text c \<Rightarrow> [c]
                                        | Placeholder n \<Rightarrow> the (map_of env n)) segs))"
  by (induction env segs rule: expand.induct) auto

lemma expand_no_dollar_brace:
  assumes "\<forall>k v. map_of env k = Some v \<longrightarrow> v \<noteq> [] \<and> CHR ''$'' \<notin> set v \<and> CHR ''{'' \<notin> set v"
  shows "\<not> dollarThenBrace segs \<Longrightarrow> expand env segs = Inr r \<Longrightarrow>
         \<not> hasDollarBrace r \<and> (r \<noteq> [] \<and> hd r = CHR ''{'' \<longrightarrow> (\<exists>rest. segs = Text (CHR ''{'') # rest))"
proof (induction segs arbitrary: r)
  case Nil
  then show ?case by simp
next
  case (Cons s segs)
  have n: "\<not> dollarThenBrace segs"
    using Cons.prems(1) by (rule dollarThenBrace_tail)
  show ?case
  proof (cases s)
    case (Text c)
    with Cons.prems(2) obtain out where out: "expand env segs = Inr out" and r: "r = c # out"
      by (auto split: sum.splits)
    from Cons.IH [OF n out] have ih1: "\<not> hasDollarBrace out"
      and ih2: "out \<noteq> [] \<and> hd out = CHR ''{'' \<longrightarrow> (\<exists>rest. segs = Text (CHR ''{'') # rest)"
      by auto
    have "\<not> (c = CHR ''$'' \<and> out \<noteq> [] \<and> hd out = CHR ''{'')"
    proof
      assume a: "c = CHR ''$'' \<and> out \<noteq> [] \<and> hd out = CHR ''{''"
      with ih2 obtain rest where "segs = Text (CHR ''{'') # rest" by blast
      with a Text Cons.prems(1) show False by simp
    qed
    with ih1 have "\<not> hasDollarBrace (c # out)"
      by (cases out) auto
    with r Text show ?thesis by simp
  next
    case (Placeholder name)
    with Cons.prems(2) obtain v out where v: "map_of env name = Some v"
      and out: "expand env segs = Inr out" and r: "r = v @ out"
      by (auto split: option.splits sum.splits)
    from assms v have vne: "v \<noteq> []" and vd: "CHR ''$'' \<notin> set v" and vb: "CHR ''{'' \<notin> set v"
      by auto
    from Cons.IH [OF n out] have ih1: "\<not> hasDollarBrace out" by simp
    from vne vd have l: "last v \<noteq> CHR ''$''"
      using last_in_set by metis
    have a: "\<not> hasDollarBrace v"
      using vd by (rule no_dollar_no_hasDollarBrace)
    have 1: "\<not> hasDollarBrace (v @ out)"
      by (rule hasDollarBrace_append [OF a ih1]) (simp add: l)
    from vne vb have "hd v \<noteq> CHR ''{''"
      using hd_in_set by metis
    with vne have 2: "hd (v @ out) \<noteq> CHR ''{''" by simp
    from 1 2 r Placeholder show ?thesis by simp
  qed
qed


lemma set_strings_Join: "set (strings_Join xs sep) \<subseteq> \<Union>(set ` set xs) \<union> set sep"
  by (induction xs sep rule: strings_Join.induct) auto

lemma strings_Join_nonempty: "xs \<noteq> [] \<Longrightarrow> [] \<notin> set xs \<Longrightarrow> strings_Join xs sep \<noteq> []"
  by (induction xs sep rule: strings_Join.induct) auto

lemma splitSlash_chars: "e \<in> set (splitSlash p) \<Longrightarrow> set e \<subseteq> set p"
proof (induction p arbitrary: e)
  case Nil
  then show ?case by simp
next
  case (Cons c cs)
  show ?case
  proof (cases "c = CHR ''/''")
    case True
    with Cons.prems have "e = [] \<or> e \<in> set (splitSlash cs)" by simp
    with Cons.IH show ?thesis by auto
  next
    case False
    show ?thesis
    proof (cases "splitSlash cs")
      case Nil
      with False Cons.prems show ?thesis by simp
    next
      case (Cons x xs)
      with False Cons.prems have "e = c # x \<or> e \<in> set xs" by simp
      moreover have "set x \<subseteq> set cs" using Cons.IH [of x] Cons by simp
      moreover have "e \<in> set xs \<Longrightarrow> set e \<subseteq> set cs" using Cons.IH [of e] Cons by simp
      ultimately show ?thesis by auto
    qed
  qed
qed

lemma cleanStep_chars:
  assumes "\<forall>x \<in> set out. set x \<subseteq> A" and "set e \<subseteq> A" and "CHR ''.'' \<in> A"
  shows "\<forall>x \<in> set (cleanStep rooted out e). set x \<subseteq> A"
  using assms by (auto simp: cleanStep_def dest: in_set_butlastD)

lemma foldl_cleanStep_chars:
  assumes "CHR ''.'' \<in> A"
  shows "\<forall>x \<in> set out. set x \<subseteq> A \<Longrightarrow> \<forall>e \<in> set es. set e \<subseteq> A \<Longrightarrow>
         \<forall>x \<in> set (foldl (cleanStep rooted) out es). set x \<subseteq> A"
proof (induction es arbitrary: out)
  case Nil
  then show ?case by simp
next
  case (Cons e es)
  have "\<forall>x \<in> set (cleanStep rooted out e). set x \<subseteq> A"
    using Cons.prems assms by (intro cleanStep_chars) simp_all
  moreover have "\<forall>e \<in> set es. set e \<subseteq> A"
    using Cons.prems(2) by simp
  ultimately have "\<forall>x \<in> set (foldl (cleanStep rooted) (cleanStep rooted out e) es). set x \<subseteq> A"
    by (rule Cons.IH)
  then show ?case by simp
qed

lemma cleanStep_nonempty:
  "[] \<notin> set out \<Longrightarrow> e \<noteq> [] \<Longrightarrow> [] \<notin> set (cleanStep rooted out e)"
  by (auto simp: cleanStep_def dest: in_set_butlastD)

lemma foldl_cleanStep_nonempty:
  "[] \<notin> set out \<Longrightarrow> [] \<notin> set es \<Longrightarrow> [] \<notin> set (foldl (cleanStep rooted) out es)"
proof (induction es arbitrary: out)
  case Nil
  then show ?case by simp
next
  case (Cons e es)
  have "[] \<notin> set (cleanStep rooted out e)"
    using Cons.prems by (intro cleanStep_nonempty) auto
  moreover have "[] \<notin> set es" using Cons.prems(2) by simp
  ultimately have "[] \<notin> set (foldl (cleanStep rooted) (cleanStep rooted out e) es)"
    by (rule Cons.IH)
  then show ?case by simp
qed


lemma cleaned_chars:
  fixes p :: string
  defines "A \<equiv> set p \<union> {CHR ''.'', CHR ''/''}"
  shows "set (strings_Join (foldl (cleanStep rooted) []
                 (filter (\<lambda>e. e \<noteq> [] \<and> e \<noteq> ''.'') (splitSlash p))) ''/'') \<subseteq> A"
proof -
  let ?elems = "filter (\<lambda>e. e \<noteq> [] \<and> e \<noteq> ''.'') (splitSlash p)"
  let ?out = "foldl (cleanStep rooted) [] ?elems"
  have d: "CHR ''.'' \<in> A" by (simp add: A_def)
  have e: "\<forall>e \<in> set ?elems. set e \<subseteq> A"
    using splitSlash_chars [of _ p] by (auto simp: A_def)
  have "\<forall>x \<in> set ([] :: string list). set x \<subseteq> A" by simp
  then have o: "\<forall>x \<in> set ?out. set x \<subseteq> A"
    using e by (rule foldl_cleanStep_chars [OF d])
  show ?thesis
  proof
    fix c
    assume "c \<in> set (strings_Join ?out ''/'')"
    with set_strings_Join [of ?out "''/''"]
    have "c \<in> \<Union>(set ` set ?out) \<or> c = CHR ''/''" by auto
    then show "c \<in> A"
    proof
      assume "c \<in> \<Union>(set ` set ?out)"
      then obtain x where "x \<in> set ?out" and "c \<in> set x" by blast
      with o show ?thesis by blast
    next
      assume "c = CHR ''/''"
      then show ?thesis by (simp add: A_def)
    qed
  qed
qed

lemma filepath_Clean_chars: "set (filepath_Clean p) \<subseteq> set p \<union> {CHR ''.'', CHR ''/''}"
proof (cases "p = []")
  case True
  then show ?thesis by (simp add: filepath_Clean_def)
next
  case False
  let ?elems = "filter (\<lambda>e. e \<noteq> [] \<and> e \<noteq> ''.'') (splitSlash p)"
  let ?out = "foldl (cleanStep (hd p = CHR ''/'')) [] ?elems"
  have c: "set (strings_Join ?out ''/'') \<subseteq> set p \<union> {CHR ''.'', CHR ''/''}"
    by (rule cleaned_chars)
  show ?thesis
  proof (cases "hd p = CHR ''/''")
    case True
    with False have "filepath_Clean p = ''/'' @ strings_Join ?out ''/''"
      by (simp add: filepath_Clean_def Let_def)
    with c show ?thesis by auto
  next
    case rel: False
    show ?thesis
    proof (cases "?out = []")
      case True
      with False rel have "filepath_Clean p = ''.''"
        by (simp add: filepath_Clean_def Let_def)
      then show ?thesis by simp
    next
      case ne: False
      with False rel have "filepath_Clean p = strings_Join ?out ''/''"
        by (simp add: filepath_Clean_def Let_def)
      with c show ?thesis by simp
    qed
  qed
qed

lemma filepath_Clean_nonempty: "filepath_Clean p \<noteq> []"
proof (cases "p = []")
  case True
  then show ?thesis by (simp add: filepath_Clean_def)
next
  case False
  let ?elems = "filter (\<lambda>e. e \<noteq> [] \<and> e \<noteq> ''.'') (splitSlash p)"
  let ?out = "foldl (cleanStep (hd p = CHR ''/'')) [] ?elems"
  have n: "[] \<notin> set ?out"
    by (rule foldl_cleanStep_nonempty) simp_all
  show ?thesis
  proof (cases "hd p = CHR ''/''")
    case True
    with False have "filepath_Clean p = ''/'' @ strings_Join ?out ''/''"
      by (simp add: filepath_Clean_def Let_def)
    then show ?thesis by simp
  next
    case rel: False
    show ?thesis
    proof (cases "?out = []")
      case True
      with False rel have "filepath_Clean p = ''.''"
        by (simp add: filepath_Clean_def Let_def)
      then show ?thesis by simp
    next
      case ne: False
      with False rel have "filepath_Clean p = strings_Join ?out ''/''"
        by (simp add: filepath_Clean_def Let_def)
      with strings_Join_nonempty [OF ne n] show ?thesis by simp
    qed
  qed
qed

lemma set_rev_dropWhile: "set (rev (dropWhile P (rev p))) \<subseteq> set p"
proof
  fix x
  assume "x \<in> set (rev (dropWhile P (rev p)))"
  then have "x \<in> set (dropWhile P (rev p))" by simp
  then have "x \<in> set (rev p)" by (rule set_dropWhileD)
  then show "x \<in> set p" by simp
qed

lemma filepath_Dir_chars: "set (filepath_Dir p) \<subseteq> set p \<union> {CHR ''.'', CHR ''/''}"
proof -
  let ?q = "rev (dropWhile (\<lambda>c. c \<noteq> CHR ''/'') (rev p))"
  have "set ?q \<subseteq> set p" by (rule set_rev_dropWhile)
  with filepath_Clean_chars [of ?q] show ?thesis
    unfolding filepath_Dir_def by blast
qed

lemma filepath_Dir_nonempty: "filepath_Dir p \<noteq> []"
  by (simp add: filepath_Dir_def filepath_Clean_nonempty)

lemma set_rev_takeWhile: "set (rev (takeWhile P (rev p))) \<subseteq> set p"
proof
  fix x
  assume "x \<in> set (rev (takeWhile P (rev p)))"
  then have "x \<in> set (takeWhile P (rev p))" by simp
  then have "x \<in> set (rev p)" by (rule set_takeWhileD [THEN conjunct1])
  then show "x \<in> set p" by simp
qed

lemma filepath_Base_cases:
  "filepath_Base p = ''.'' \<or> filepath_Base p = ''/'' \<or>
   filepath_Base p = rev (takeWhile (\<lambda>c. c \<noteq> CHR ''/'')
                            (rev (rev (dropWhile (\<lambda>c. c = CHR ''/'') (rev p)))))"
proof -
  let ?b = "rev (takeWhile (\<lambda>c. c \<noteq> CHR ''/'')
                            (rev (rev (dropWhile (\<lambda>c. c = CHR ''/'') (rev p)))))"
  have eq: "filepath_Base p = (if p = [] then ''.'' else if ?b = [] then ''/'' else ?b)"
    unfolding filepath_Base_def Let_def ..
  show ?thesis
  proof (cases "p = []")
    case True
    with eq have "filepath_Base p = ''.''" by (simp only: if_P if_not_P if_True if_False)
    then show ?thesis by (rule disjI1)
  next
    case False
    show ?thesis
    proof (cases "?b = []")
      case True
      with eq False have "filepath_Base p = ''/''" by (simp only: if_P if_not_P if_True if_False)
      then show ?thesis by (intro disjI2 disjI1)
    next
      case nb: False
      with eq False have "filepath_Base p = ?b" by (simp only: if_P if_not_P if_True if_False)
      then show ?thesis by (intro disjI2)
    qed
  qed
qed

lemma filepath_Base_chars: "set (filepath_Base p) \<subseteq> set p \<union> {CHR ''.'', CHR ''/''}"
proof -
  let ?q = "rev (dropWhile (\<lambda>c. c = CHR ''/'') (rev p))"
  let ?b = "rev (takeWhile (\<lambda>c. c \<noteq> CHR ''/'') (rev ?q))"
  have "set ?b \<subseteq> set ?q" by (rule set_rev_takeWhile)
  also have "\<dots> \<subseteq> set p" by (rule set_rev_dropWhile)
  finally have b: "set ?b \<subseteq> set p" .
  from filepath_Base_cases [of p] show ?thesis
  proof (elim disjE)
    assume "filepath_Base p = ''.''"
    then show ?thesis by simp
  next
    assume "filepath_Base p = ''/''"
    then show ?thesis by simp
  next
    assume e: "filepath_Base p = ?b"
    have "set (filepath_Base p) \<subseteq> set p"
      unfolding e by (rule b)
    then show ?thesis by blast
  qed
qed

lemma filepath_Base_nonempty: "filepath_Base p \<noteq> []"
proof -
  let ?b = "rev (takeWhile (\<lambda>c. c \<noteq> CHR ''/'')
                            (rev (rev (dropWhile (\<lambda>c. c = CHR ''/'') (rev p)))))"
  have eq: "filepath_Base p = (if p = [] then ''.'' else if ?b = [] then ''/'' else ?b)"
    unfolding filepath_Base_def Let_def ..
  show ?thesis
  proof (cases "p = []")
    case True
    with eq have "filepath_Base p = ''.''" by (simp only: if_P if_not_P if_True if_False)
    then show ?thesis by simp
  next
    case False
    show ?thesis
    proof (cases "?b = []")
      case True
      with eq False have "filepath_Base p = ''/''" by (simp only: if_P if_not_P if_True if_False)
      then show ?thesis by simp
    next
      case nb: False
      with eq False have e: "filepath_Base p = ?b" by (simp only: if_P if_not_P if_True if_False)
      show ?thesis unfolding e by (rule nb)
    qed
  qed
qed

lemma getMapEnv_eq:
  "getMapEnv d =
     [(''localWorkspaceFolder'', filepath_Dir (DirPath d)),
      (''localWorkspaceFolderBasename'', filepath_Base (filepath_Dir (DirPath d)))]"
  by (simp add: getMapEnv_def Let_def)

lemma getMapEnv_values:
  assumes "CHR ''$'' \<notin> set (DirPath d)" and "CHR ''{'' \<notin> set (DirPath d)"
  shows "\<forall>k v. map_of (getMapEnv d) k = Some v \<longrightarrow>
           v \<noteq> [] \<and> CHR ''$'' \<notin> set v \<and> CHR ''{'' \<notin> set v"
proof (intro allI impI)
  fix k v
  let ?dir = "filepath_Dir (DirPath d)"
  have dir: "set ?dir \<subseteq> set (DirPath d) \<union> {CHR ''.'', CHR ''/''}"
    by (rule filepath_Dir_chars)
  have base: "set (filepath_Base ?dir) \<subseteq> set ?dir \<union> {CHR ''.'', CHR ''/''}"
    by (rule filepath_Base_chars)
  assume "map_of (getMapEnv d) k = Some v"
  then have "v = ?dir \<or> v = filepath_Base ?dir"
    unfolding getMapEnv_eq by (simp split: if_splits)
  then show "v \<noteq> [] \<and> CHR ''$'' \<notin> set v \<and> CHR ''{'' \<notin> set v"
  proof
    assume v: "v = ?dir"
    have "CHR ''$'' \<notin> set ?dir" using dir assms(1) by auto
    moreover have "CHR ''{'' \<notin> set ?dir" using dir assms(2) by auto
    ultimately show ?thesis using v filepath_Dir_nonempty [of "DirPath d"] by simp
  next
    assume v: "v = filepath_Base ?dir"
    have "CHR ''$'' \<notin> set (filepath_Base ?dir)" using base dir assms(1) by auto
    moreover have "CHR ''{'' \<notin> set (filepath_Base ?dir)" using base dir assms(2) by auto
    ultimately show ?thesis using v filepath_Base_nonempty [of ?dir] by simp
  qed
qed

lemma getWorkspaceFolder_eq:
  "getWorkspaceFolder d = interpolate_Interpolate (getMapEnv d) (workspaceFolderTemplate d)"
  by (simp add: getWorkspaceFolder_def workspaceFolderTemplate_def Let_def)


text \<open>
  Claim C9 does not hold as stated: a project directory whose name is itself of the form
  \<open>${x}\<close> is substituted as it is, so the resolved workspace folder contains a \<open>${...}\<close>
  token.
\<close>

theorem getWorkspaceFolder_keeps_token_of_directory_name:
  "getWorkspaceFolder (goDescriptor\<lparr>DirPath := ''/home/dev/${x}/.devcontainer''\<rparr>)
     = Inr (''/workspace/'' @ ''${'' @ ''x}'')"
  by code_simp

text \<open>
  Claim C9, amended.  Workspace-folder resolution interpolates the descriptor's
  \<open>workspaceFolder\<close>, or the default template \<open>/workspace/${localWorkspaceFolderBasename}\<close>
  when that is empty, with \<open>localWorkspaceFolder\<close> bound to the parent directory of the
  descriptor's directory and \<open>localWorkspaceFolderBasename\<close> to the base name of that parent.
  If every placeholder of the template is one of the two variables, the result is the
  template with each placeholder replaced by its value; if the template references another
  variable, or a placeholder is not closed, the resolution fails.  If the descriptor's
  directory path contains neither \<open>$\<close> nor \<open>{\<close>, a result contains no \<open>${\<close>, so no
  placeholder is left in it.
\<close>

theorem getWorkspaceFolder_resolution:
  "getMapEnv d =
     [(''localWorkspaceFolder'', filepath_Dir (DirPath d)),
      (''localWorkspaceFolderBasename'', filepath_Base (filepath_Dir (DirPath d)))]
   \<and> workspaceFolderTemplate d =
       (if WorkspaceFolder d = [] then ''/workspace/${localWorkspaceFolderBasename}''
        else WorkspaceFolder d)
   \<and> getWorkspaceFolder d = interpolate_Interpolate (getMapEnv d) (workspaceFolderTemplate d)
   \<and> (\<forall>segs. parseTemplate (workspaceFolderTemplate d) = Some segs \<longrightarrow>
         (if \<forall>n. Placeholder n \<in> set segs \<longrightarrow>
                 n = ''localWorkspaceFolder'' \<or> n = ''localWorkspaceFolderBasename''
          then getWorkspaceFolder d =
                 Inr (concat (map (\<lambda>seg. case seg of
                        Text c \<Rightarrow> [c]
                      | Placeholder n \<Rightarrow>
                          if n = ''localWorkspaceFolder'' then filepath_Dir (DirPath d)
                          else filepath_Base (filepath_Dir (DirPath d))) segs))
          else isl (getWorkspaceFolder d)))
   \<and> (parseTemplate (workspaceFolderTemplate d) = None \<longrightarrow> isl (getWorkspaceFolder d))
   \<and> (CHR ''$'' \<notin> set (DirPath d) \<and> CHR ''{'' \<notin> set (DirPath d) \<longrightarrow>
        (\<forall>r. getWorkspaceFolder d = Inr r \<longrightarrow> \<not> (\<exists>u v. r = u @ ''${'' @ v)))"
proof (intro conjI allI impI)
  show "getMapEnv d =
     [(''localWorkspaceFolder'', filepath_Dir (DirPath d)),
      (''localWorkspaceFolderBasename'', filepath_Base (filepath_Dir (DirPath d)))]"
    by (rule getMapEnv_eq)
next
  show "workspaceFolderTemplate d =
       (if WorkspaceFolder d = [] then ''/workspace/${localWorkspaceFolderBasename}''
        else WorkspaceFolder d)"
    by (rule workspaceFolderTemplate_def)
next
  show "getWorkspaceFolder d = interpolate_Interpolate (getMapEnv d) (workspaceFolderTemplate d)"
    by (rule getWorkspaceFolder_eq)
next
  fix segs
  assume p: "parseTemplate (workspaceFolderTemplate d) = Some segs"
  let ?known = "\<forall>n. Placeholder n \<in> set segs \<longrightarrow>
                 n = ''localWorkspaceFolder'' \<or> n = ''localWorkspaceFolderBasename''"
  let ?subst = "\<lambda>n. if n = ''localWorkspaceFolder'' then filepath_Dir (DirPath d)
                     else filepath_Base (filepath_Dir (DirPath d))"
  have g: "getWorkspaceFolder d = expand (getMapEnv d) segs"
    by (simp add: getWorkspaceFolder_eq interpolate_Interpolate_def p)
  show "if ?known
        then getWorkspaceFolder d =
               Inr (concat (map (\<lambda>seg. case seg of Text c \<Rightarrow> [c] | Placeholder n \<Rightarrow> ?subst n) segs))
        else isl (getWorkspaceFolder d)"
  proof (cases ?known)
    case True
    then have d: "\<forall>n. Placeholder n \<in> set segs \<longrightarrow> map_of (getMapEnv d) n \<noteq> None"
      by (auto simp: getMapEnv_eq)
    have "(case seg of Text c \<Rightarrow> [c] | Placeholder n \<Rightarrow> the (map_of (getMapEnv d) n))
            = (case seg of Text c \<Rightarrow> [c] | Placeholder n \<Rightarrow> ?subst n)"
      if "seg \<in> set segs" for seg
    proof (cases seg)
      case (Text c)
      then show ?thesis by simp
    next
      case (Placeholder n)
      with that True have "n = ''localWorkspaceFolder'' \<or> n = ''localWorkspaceFolderBasename''"
        by blast
      with Placeholder show ?thesis by (auto simp: getMapEnv_eq)
    qed
    then have "map (\<lambda>seg. case seg of Text c \<Rightarrow> [c] | Placeholder n \<Rightarrow> the (map_of (getMapEnv d) n)) segs
             = map (\<lambda>seg. case seg of Text c \<Rightarrow> [c] | Placeholder n \<Rightarrow> ?subst n) segs"
      by (intro map_cong refl)
    with expand_defined [OF d] g True show ?thesis by simp
  next
    case False
    then obtain n where n: "Placeholder n \<in> set segs"
      and u: "n \<noteq> ''localWorkspaceFolder''" "n \<noteq> ''localWorkspaceFolderBasename''"
      by blast
    from u have "map_of (getMapEnv d) n = None"
      by (simp add: getMapEnv_eq)
    from expand_undefined [OF n this] g have "isl (getWorkspaceFolder d)" by simp
    with False show ?thesis by (simp only: if_not_P if_False simp_thms)
  qed
next
  assume "parseTemplate (workspaceFolderTemplate d) = None"
  then show "isl (getWorkspaceFolder d)"
    by (simp add: getWorkspaceFolder_eq interpolate_Interpolate_def)
next
  fix r
  assume a: "CHR ''$'' \<notin> set (DirPath d) \<and> CHR ''{'' \<notin> set (DirPath d)"
    and r: "getWorkspaceFolder d = Inr r"
  from r obtain segs where p: "parseTemplate (workspaceFolderTemplate d) = Some segs"
    and e: "expand (getMapEnv d) segs = Inr r"
    by (auto simp: getWorkspaceFolder_eq interpolate_Interpolate_def split: option.splits)
  from a have v: "\<forall>k v. map_of (getMapEnv d) k = Some v \<longrightarrow>
           v \<noteq> [] \<and> CHR ''$'' \<notin> set v \<and> CHR ''{'' \<notin> set v"
    by (intro getMapEnv_values) simp_all
  from expand_no_dollar_brace [OF v parseTemplate_no_dollarThenBrace [OF p] e]
  have "\<not> hasDollarBrace r" by simp
  then show "\<not> (\<exists>u v. r = u @ ''${'' @ v)"
    using hasDollarBrace_iff [of r] by blast
qed

text \<open>
  The witness: the descriptor of \<open>TestDevcontainer\<close> in \<open>/home/dev/project/.devcontainer\<close>
  with the override \<open>/work/${localWorkspaceFolderBasename}/src\<close> resolves to
  \<open>/work/project/src\<close>, in which no \<open>${\<close> occurs.
\<close>

theorem getWorkspaceFolder_resolution_witness:
  "getWorkspaceFolder (goDescriptor\<lparr>WorkspaceFolder := ''/work/${localWorkspaceFolderBasename}/src''\<rparr>)
     = Inr ''/work/project/src''
   \<and> \<not> (\<exists>u v. ''/work/project/src'' = u @ ''${'' @ v)"
proof -
  let ?d = "goDescriptor\<lparr>WorkspaceFolder := ''/work/${localWorkspaceFolderBasename}/src''\<rparr>"
  have r: "getWorkspaceFolder ?d = Inr ''/work/project/src''"
    by code_simp
  have "CHR ''$'' \<notin> set (DirPath ?d) \<and> CHR ''{'' \<notin> set (DirPath ?d)"
    by (simp add: goDescriptor_def)
  with getWorkspaceFolder_resolution [of ?d] r
  have "\<not> (\<exists>u v. ''/work/project/src'' = u @ ''${'' @ v)"
    by blast
  with r show ?thesis by (rule conjI)
qed

end
